theory Spec2Isabelle
  imports Complex_Main "HOL-Library.Word" "HOL-Library.Multiset"
begin

unbundle bit_operations_syntax

section \<open>Data model of hash\_table.h\<close>

text \<open>
  The library is C for an LP64 little-endian platform: \<open>size_t\<close> and pointers are 64 bits
  wide, \<open>int\<close>, \<open>unsigned int\<close> and \<open>uint32_t\<close> are 32 bits wide.  Unsigned arithmetic
  wraps around, which the word types do by themselves.
\<close>

type_synonym size_t = "64 word"
type_synonym c_int = "32 word"
type_synonym byte = "8 word"

text \<open>
  A C string is modelled by the bytes of its buffer in front of the terminating NUL.  Code
  that walks a string stops at the end of the list (the NUL) or at a zero byte inside it,
  whichever comes first.
\<close>

type_synonym cstr = "byte list"

text \<open>
  A pointer is \<open>NULL\<close> or an address together with the object it points to.  Addresses
  are kept because the code reads a pointer's own bits in places (a \<open>union\<close> member read
  through the other member, a \<open>char**\<close> cast to \<open>char*\<close>) and because a stale pointer
  differs from a fresh one by its address only.
\<close>

datatype 'a pointer = NULL | Ptr (addr: size_t) (target: 'a)

text \<open>
  \<open>key_type\<close> and \<open>value_type\<close> are C enums, that is integers: a caller can pass any
  integer where a tag is expected, and \<open>check_ht_pair_input\<close> exists for that reason.
\<close>

type_synonym key_type = int
type_synonym value_type = int
type_synonym pass_method = int

abbreviation (input) HT_INT_KEY :: key_type where "HT_INT_KEY \<equiv> 0"
abbreviation (input) HT_STR_KEY :: key_type where "HT_STR_KEY \<equiv> 1"

abbreviation (input) HT_U_INT8_VAL :: value_type where "HT_U_INT8_VAL \<equiv> 0"
abbreviation (input) HT_U_INT16_VAL :: value_type where "HT_U_INT16_VAL \<equiv> 1"
abbreviation (input) HT_U_INT32_VAL :: value_type where "HT_U_INT32_VAL \<equiv> 2"
abbreviation (input) HT_U_INT64_VAL :: value_type where "HT_U_INT64_VAL \<equiv> 3"
abbreviation (input) HT_INT8_VAL :: value_type where "HT_INT8_VAL \<equiv> 4"
abbreviation (input) HT_INT16_VAL :: value_type where "HT_INT16_VAL \<equiv> 5"
abbreviation (input) HT_INT32_VAL :: value_type where "HT_INT32_VAL \<equiv> 6"
abbreviation (input) HT_INT64_VAL :: value_type where "HT_INT64_VAL \<equiv> 7"
abbreviation (input) HT_U_SHORT_VAL :: value_type where "HT_U_SHORT_VAL \<equiv> 8"
abbreviation (input) HT_SHORT_VAL :: value_type where "HT_SHORT_VAL \<equiv> 9"
abbreviation (input) HT_U_INT_VAL :: value_type where "HT_U_INT_VAL \<equiv> 10"
abbreviation (input) HT_INT_VAL :: value_type where "HT_INT_VAL \<equiv> 11"
abbreviation (input) HT_U_LONG_VAL :: value_type where "HT_U_LONG_VAL \<equiv> 12"
abbreviation (input) HT_LONG_VAL :: value_type where "HT_LONG_VAL \<equiv> 13"
abbreviation (input) HT_U_LONG_LONG_VAL :: value_type where "HT_U_LONG_LONG_VAL \<equiv> 14"
abbreviation (input) HT_LONG_LONG_VAL :: value_type where "HT_LONG_LONG_VAL \<equiv> 15"
abbreviation (input) HT_FLOAT_VAL :: value_type where "HT_FLOAT_VAL \<equiv> 16"
abbreviation (input) HT_DOUBLE_VAL :: value_type where "HT_DOUBLE_VAL \<equiv> 17"
abbreviation (input) HT_LONG_DOUBLE_VAL :: value_type where "HT_LONG_DOUBLE_VAL \<equiv> 18"
abbreviation (input) HT_CHAR_VAL :: value_type where "HT_CHAR_VAL \<equiv> 19"
abbreviation (input) HT_STR_VAL :: value_type where "HT_STR_VAL \<equiv> 20"
abbreviation (input) HT_ARRAY_VAL :: value_type where "HT_ARRAY_VAL \<equiv> 21"

definition key_type_check :: "key_type \<Rightarrow> bool" where
  "key_type_check curr_key_type \<longleftrightarrow> curr_key_type = HT_INT_KEY \<or> curr_key_type = HT_STR_KEY"

definition value_type_check :: "value_type \<Rightarrow> bool" where
  "value_type_check curr_value_type \<longleftrightarrow>
     curr_value_type \<ge> HT_U_INT8_VAL \<and> curr_value_type \<le> HT_ARRAY_VAL"

text \<open>
  The \<open>data\<close> member of \<open>ht_key\<close> is a union of an \<open>int\<close> and a \<open>const char*\<close>.  The model
  records which member was stored last; \<open>as_int\<close> and \<open>as_str\<close> read the storage the way
  the C expressions \<open>data.as_int\<close> and \<open>data.as_str\<close> do.  Reading \<open>as_int\<close> where a
  pointer was stored yields the low four bytes of the pointer.  Reading \<open>as_str\<close> where an
  \<open>int\<close> was stored yields a pointer of which four bytes are the \<open>int\<close> and four are
  whatever the storage held before: the model has no value for it (\<open>None\<close>).
\<close>

datatype key_data = Int_stored c_int | Str_stored "cstr pointer"

fun as_int :: "key_data \<Rightarrow> c_int" where
  "as_int (Int_stored k) = k"
| "as_int (Str_stored NULL) = 0"
| "as_int (Str_stored (Ptr a s)) = ucast a"

fun as_str :: "key_data \<Rightarrow> cstr pointer option" where
  "as_str (Str_stored p) = Some p"
| "as_str (Int_stored k) = None"

section \<open>Hashing (hash\_int, hash\_str, hash\_the\_key)\<close>

definition MULTIPLIER :: "32 word" where
  "MULTIPLIER = 2654435769"

text \<open>\<open>hash_int\<close>: the product is formed in \<open>uint32_t\<close> and widened to \<open>size_t\<close> on return.\<close>

definition hash_int :: "c_int \<Rightarrow> size_t" where
  "hash_int key = (let k = (ucast key :: 32 word) in ucast (k * MULTIPLIER))"

text \<open>
  \<open>hash_str\<close>: \<open>while (*key_string) hash = ((hash << 5) + hash) + (unsigned char)(*key_string++)\<close>,
  in \<open>size_t\<close>.
\<close>

fun hash_str_loop :: "size_t \<Rightarrow> cstr \<Rightarrow> size_t" where
  "hash_str_loop hash [] = hash"
| "hash_str_loop hash (c # key_string) =
     (if c = 0 then hash
      else hash_str_loop ((push_bit 5 hash + hash) + ucast c) key_string)"

definition hash_str :: "cstr \<Rightarrow> size_t" where
  "hash_str key_string = hash_str_loop 5381 key_string"

text \<open>
  What the library prints.  Each constructor stands for one message of the source; the
  text of the message is quoted where the constructor is used.  \<open>Stream_read_as_format\<close>
  is the output of the call \<open>printf(stderr, "[ERROR] Hash operation error in ht_insert()\n")\<close>
  in \<open>ht_insert\<close>: \<open>printf\<close> takes its first argument for the format, here the stream
  object, and the text after it for an argument that no conversion asks for.  What goes to
  the standard output is what the bytes of the stream object make as a format; the text
  \<open>Hash operation error\<close> is not printed.
\<close>

datatype message =
    Unknown_key_type
  | Invalid_key_type_argument
  | Invalid_value_type_argument
  | NULL_key_pointer
  | NULL_value_pointer
  | NULL_hash_table_pointer
  | Invalid_arguments
  | Hash_operation_error
  | Stream_read_as_format
  | Hash_index_boundary_check_failed
  | Hashed_index_out_of_table_range
  | No_data_in_the_resized_table
  | Too_big_to_resize
  | Too_small_to_resize
  | Failed_to_allocate_resized_table
  | Failed_to_duplicate_string_key_during_resize
  | Failed_to_allocate_hash_table
  | Invalid_capacity
  | Failed_to_allocate_elements
  | Invalid_key_type_in_ht_create
  | Invalid_value_type_in_ht_create
  | Invalid_table_pointer
  | Value_pointer_is_NULL
  | Unknown_key_type_in_add
  | NULL_value_in_memcpy
  | Failed_to_allocate_memory_for_value
  | Failed_to_duplicate_string_key

text \<open>
  What a call does besides changing the table: it prints, it asks the allocator for memory
  (the event holds the address returned, 0 for a failed request), it frees a block.
\<close>

datatype event = Print message | Allocated size_t | Freed size_t

text \<open>
  \<open>hash_the_key\<close> dereferences \<open>key\<close> as \<open>int*\<close> or as \<open>char**\<close>.  \<open>None\<close> stands for a
  dereference the C standard gives no meaning to: a null \<open>key\<close>, a null string, or the
  storage of an \<open>int\<close> read as a pointer.
\<close>

definition hash_the_key :: "key_data pointer \<Rightarrow> key_type \<Rightarrow> size_t option \<times> event list" where
  "hash_the_key key curr_key_type =
     (if curr_key_type = HT_INT_KEY then
        (case key of NULL \<Rightarrow> (None, [])
         | Ptr a d \<Rightarrow> (Some (hash_int (as_int d)), []))
      else if curr_key_type = HT_STR_KEY then
        (case key of NULL \<Rightarrow> (None, [])
         | Ptr a d \<Rightarrow>
             (case as_str d of
                Some (Ptr b key_string) \<Rightarrow> (Some (hash_str key_string), [])
              | _ \<Rightarrow> (None, [])))
      else (Some 0, [Print Unknown_key_type]))"

section \<open>The table (hash\_table.h) and its allocation (ht\_create)\<close>

text \<open>
  The structs of the header, field by field.  Fields are prefixed with the struct they
  belong to (\<open>k_type\<close> is \<open>ht_key.type\<close>, \<open>e_occupied\<close> is \<open>ht_element.occupied\<close>,
  \<open>size_ht\<close> is \<open>hash_table.size\<close>), since a record field is a global name.

  The \<open>data\<close> union of \<open>ht_value\<close> holds a scalar in place (\<open>Inline\<close>, the bytes of its
  object representation) or a pointer to a payload (\<open>Blob\<close>).  \<open>ht_add_pair\<close> is written
  against an earlier layout of \<open>ht_element\<close>, with a \<open>void* value\<close> that owns a
  \<open>malloc\<close>ed copy of the payload and a \<open>value_size\<close>: in the model these are the
  pointer member of the union and \<open>data_size\<close>.
\<close>

record ht_key =
  k_type :: key_type
  k_data :: key_data

datatype value_data = Inline "byte list" | Blob "byte list pointer"

record ht_value =
  v_type :: value_type
  v_pass_method :: pass_method
  v_data :: value_data
  v_data_size :: size_t

record ht_element =
  e_key :: ht_key
  e_value :: ht_value
  e_occupied :: "32 word"

text \<open>
  \<open>first_element_hash_index\<close> and \<open>last_element_hash_index\<close> are never initialised by
  \<open>ht_create\<close> (the table comes from \<open>malloc\<close>): \<open>None\<close> is an indeterminate value.
\<close>

record hash_table =
  elements :: "ht_element list pointer"
  capacity :: size_t
  size_ht :: size_t
  max_load_factor :: real
  first_element_hash_index :: "size_t option"
  last_element_hash_index :: "size_t option"

definition HT_INITIAL_CAPACITY :: size_t where
  "HT_INITIAL_CAPACITY = 16"

definition HT_MAX_DEFAULT_LOAD_FACTOR :: real where
  "HT_MAX_DEFAULT_LOAD_FACTOR = 0.75"

definition HT_MIN_DEFAULT_LOAD_FACTOR :: real where
  "HT_MIN_DEFAULT_LOAD_FACTOR = 0.25"

definition SIZE_MAX :: size_t where
  "SIZE_MAX = - 1"

text \<open>
  \<open>sizeof(ht_element)\<close> for the header's first declaration of \<open>ht_value\<close> under the LP64
  layout rules: 16 bytes of key, 48 of value (the union holds a \<open>long double\<close>), 4 of
  \<open>occupied\<close>, padded to a multiple of 16.
\<close>

definition sizeof_ht_element :: size_t where
  "sizeof_ht_element = 80"

text \<open>An element as \<open>calloc\<close> leaves it: every byte zero.\<close>

definition zero_element :: ht_element where
  "zero_element =
     \<lparr>e_key = \<lparr>k_type = 0, k_data = Str_stored NULL\<rparr>,
      e_value = \<lparr>v_type = 0, v_pass_method = 0, v_data = Blob NULL, v_data_size = 0\<rparr>,
      e_occupied = 0\<rparr>"

text \<open>
  The allocator is an input of every operation that allocates: the list holds, in order,
  what the coming requests (\<open>malloc\<close>, \<open>calloc\<close>, \<open>strdup\<close>) return, an address or 0 for
  a request that fails.  A request past the end of the list fails.  The list is free to
  serve any request, also one that no C library could serve (an array whose size in bytes
  is beyond \<open>SIZE_MAX\<close>); what is proved for every list holds for the lists of a real
  library.
\<close>

type_synonym allocator = "size_t list"

fun allocate :: "allocator \<Rightarrow> size_t \<times> allocator" where
  "allocate [] = (0, [])"
| "allocate (a # al) = (a, al)"

text \<open>
  How a call ends: it returns, it leaves the process (\<open>exit\<close>, or \<open>abort\<close> from a failed
  \<open>assert\<close>), it never ends, or it does something C gives no meaning to.
\<close>

datatype 'a outcome = Returns 'a | Exits int | Aborts | Diverges | Undefined

text \<open>
  \<open>ht_create\<close> takes no argument.  The table comes from \<open>malloc\<close>; the function sets
  its capacity to the macro \<open>HT_INITIAL_CAPACITY\<close>, its size and its maximal load factor,
  tests the capacity (\<open>capacity == 0 || capacity > SIZE_MAX / sizeof(ht_element)\<close>) and
  allocates the array with \<open>calloc\<close>.
\<close>

definition ht_create :: "allocator \<Rightarrow> hash_table pointer \<times> event list \<times> allocator" where
  "ht_create al =
     (let (table_addr, al1) = allocate al in
      if table_addr = 0 then
        (NULL, [Allocated 0, Print Failed_to_allocate_hash_table], al1)
      else if HT_INITIAL_CAPACITY = 0 \<or> HT_INITIAL_CAPACITY > SIZE_MAX div sizeof_ht_element then
        (NULL, [Allocated table_addr, Print Invalid_capacity, Freed table_addr], al1)
      else
        (let (elements_addr, al2) = allocate al1 in
         if elements_addr = 0 then
           (NULL, [Allocated table_addr, Allocated 0, Print Failed_to_allocate_elements,
                   Freed table_addr], al2)
         else
           (Ptr table_addr
              \<lparr>elements = Ptr elements_addr (replicate (unat HT_INITIAL_CAPACITY) zero_element),
               capacity = HT_INITIAL_CAPACITY,
               size_ht = 0,
               max_load_factor = HT_MAX_DEFAULT_LOAD_FACTOR,
               first_element_hash_index = None,
               last_element_hash_index = None\<rparr>,
            [Allocated table_addr, Allocated elements_addr], al2)))"

section \<open>Argument check of ht\_insert (check\_ht\_pair\_input)\<close>

definition check_ht_pair_input ::
  "key_data pointer \<Rightarrow> key_type \<Rightarrow> byte list pointer \<Rightarrow> value_type \<Rightarrow> bool \<times> event list" where
  "check_ht_pair_input key key_t value val_t =
     (if \<not> key_type_check key_t then (False, [Print Invalid_key_type_argument])
      else if \<not> value_type_check val_t then (False, [Print Invalid_value_type_argument])
      else if key = NULL then (False, [Print NULL_key_pointer])
      else if value = NULL then (False, [Print NULL_value_pointer])
      else (True, []))"

section \<open>Capacity check and resize (ht\_capacity\_check, resize\_ht)\<close>

type_synonym capacity_check_call_type = int

abbreviation (input) ADD :: capacity_check_call_type where "ADD \<equiv> 0"
abbreviation (input) DELETE :: capacity_check_call_type where "DELETE \<equiv> 1"

text \<open>
  The probing loop of the rehash,
  \<open>while (new_elements[new_index].occupied) new_index = (new_index + 1) & (new_capacity - 1)\<close>.
  It has no bound of its own: \<open>None\<close> is the loop that never ends.
\<close>

datatype probe_result = Free_slot size_t | Out_of_bounds

partial_function (option) probe_free :: "ht_element list \<Rightarrow> size_t \<Rightarrow> size_t \<Rightarrow> probe_result option" where
  "probe_free new_elements new_capacity new_index =
     (if unat new_index < length new_elements then
        (if e_occupied (new_elements ! unat new_index) \<noteq> 0
         then probe_free new_elements new_capacity ((new_index + 1) AND (new_capacity - 1))
         else Some (Free_slot new_index))
      else Some Out_of_bounds)"

text \<open>
  The index computation of the rehash: a \<open>switch\<close> on the stored key's type, each case
  calling \<open>hash_the_key\<close> on the address of the union member; a type that is neither
  leaves \<open>new_index\<close> uninitialised.  \<open>member_addr\<close> is the address of the member.
\<close>

definition rehash_index :: "size_t \<Rightarrow> ht_key \<Rightarrow> size_t \<Rightarrow> size_t option" where
  "rehash_index member_addr old_key new_capacity =
     (if k_type old_key = HT_INT_KEY \<or> k_type old_key = HT_STR_KEY then
        (case fst (hash_the_key (Ptr member_addr (k_data old_key)) (k_type old_key)) of
           None \<Rightarrow> None
         | Some h \<Rightarrow> Some (h AND (new_capacity - 1)))
      else None)"

definition with_events :: "event list \<Rightarrow> 'a \<times> event list \<Rightarrow> 'a \<times> event list" where
  "with_events evs r = (fst r, evs @ snd r)"

text \<open>
  The body of \<open>for (i = 0; i < old_capacity; i++)\<close>, over the old elements still to be
  visited; \<open>p\<close> is the address of the first of them.  \<open>strdup\<close> copies the string up to
  its NUL; when it fails the code calls \<open>exit(1)\<close>.
\<close>

fun rehash ::
  "size_t \<Rightarrow> ht_element list \<Rightarrow> ht_element list \<Rightarrow> size_t \<Rightarrow> allocator
     \<Rightarrow> (ht_element list \<times> allocator) outcome \<times> event list" where
  "rehash p [] new_elements new_capacity al = (Returns (new_elements, al), [])"
| "rehash p (old_element # rest) new_elements new_capacity al =
     (if e_occupied old_element = 0 then
        rehash (p + sizeof_ht_element) rest new_elements new_capacity al
      else
        (case rehash_index (p + 8) (e_key old_element) new_capacity of
           None \<Rightarrow> (Undefined, [])
         | Some start \<Rightarrow>
             (case probe_free new_elements new_capacity start of
                None \<Rightarrow> (Diverges, [])
              | Some Out_of_bounds \<Rightarrow> (Undefined, [])
              | Some (Free_slot new_index) \<Rightarrow>
                  (if k_type (e_key old_element) \<noteq> HT_STR_KEY then
                     rehash (p + sizeof_ht_element) rest
                       (new_elements[unat new_index :=
                          \<lparr>e_key = e_key old_element, e_value = e_value old_element,
                           e_occupied = 1\<rparr>])
                       new_capacity al
                   else
                     (case as_str (k_data (e_key old_element)) of
                        Some (Ptr a s) \<Rightarrow>
                          (let (copy_addr, al1) = allocate al in
                           if copy_addr = 0 then
                             (Exits 1, [Allocated 0,
                                        Print Failed_to_duplicate_string_key_during_resize])
                           else
                             with_events [Allocated copy_addr]
                               (rehash (p + sizeof_ht_element) rest
                                  (new_elements[unat new_index :=
                                     \<lparr>e_key = \<lparr>k_type = HT_STR_KEY,
                                               k_data = Str_stored
                                                 (Ptr copy_addr (takeWhile (\<lambda>b. b \<noteq> 0) s))\<rparr>,
                                      e_value = e_value old_element,
                                      e_occupied = 1\<rparr>])
                                  new_capacity al1))
                      | _ \<Rightarrow> (Undefined, []))))))"

text \<open>
  \<open>resize_ht\<close>.  Its first line returns when \<open>table\<close> is null; the model is about a
  table that exists, as its only callers have dereferenced the pointer before.  A call
  type that is neither \<open>ADD\<close> nor \<open>DELETE\<close> leaves \<open>new_capacity\<close> uninitialised.  The
  loop reads \<open>old_elements[i]\<close> for every \<open>i\<close> below \<open>old_capacity\<close>: an array shorter
  than that is read out of bounds.
\<close>

definition resize_ht ::
  "hash_table \<Rightarrow> capacity_check_call_type \<Rightarrow> allocator
     \<Rightarrow> (hash_table \<times> allocator) outcome \<times> event list" where
  "resize_ht table check_call_type al =
     (case elements table of
        NULL \<Rightarrow> (Returns (table, al), [Print No_data_in_the_resized_table])
      | Ptr old_addr old_elements \<Rightarrow>
          (let old_capacity = capacity table in
           if check_call_type = ADD \<and> old_capacity > SIZE_MAX div 2 then
             (Returns (table, al), [Print Too_big_to_resize])
           else if check_call_type = DELETE \<and> old_capacity \<le> HT_INITIAL_CAPACITY then
             (Returns (table, al), [Print Too_small_to_resize])
           else if check_call_type \<noteq> ADD \<and> check_call_type \<noteq> DELETE then
             (Undefined, [])
           else
             (let new_capacity =
                    (if check_call_type = ADD then old_capacity * 2 else old_capacity div 2);
                  (new_addr, al1) = allocate al
              in
              if new_addr = 0 then
                (Returns (table, al1), [Allocated 0, Print Failed_to_allocate_resized_table])
              else if length old_elements < unat old_capacity then
                (Undefined, [Allocated new_addr])
              else
                (case rehash old_addr (take (unat old_capacity) old_elements)
                        (replicate (unat new_capacity) zero_element) new_capacity al1 of
                   (Returns (new_elements, al2), evs) \<Rightarrow>
                     (Returns
                        (table\<lparr>capacity := new_capacity,
                               elements := Ptr new_addr new_elements\<rparr>, al2),
                      [Allocated new_addr] @ evs @ [Freed old_addr])
                 | (Exits c, evs) \<Rightarrow> (Exits c, [Allocated new_addr] @ evs)
                 | (Aborts, evs) \<Rightarrow> (Aborts, [Allocated new_addr] @ evs)
                 | (Diverges, evs) \<Rightarrow> (Diverges, [Allocated new_addr] @ evs)
                 | (Undefined, evs) \<Rightarrow> (Undefined, [Allocated new_addr] @ evs)))))"

text \<open>
  \<open>ht_capacity_check\<close>.  The load factor is a \<open>double\<close>; the model computes the
  quotient exactly, which is what the \<open>double\<close> comparison decides as long as the
  capacity stays below \<open>2^51\<close>.  A capacity of zero is written out, because division by
  zero is an infinity or a NaN in C and 0 in HOL: \<open>x / 0\<close> is above the maximum or below
  the minimum for every \<open>x\<close> but 0, and \<open>0 / 0\<close> compares false with both.  The
  branch for a call type that is neither \<open>ADD\<close> nor \<open>DELETE\<close> calls \<open>fnprintf\<close>, a
  function that neither the source nor the C library defines, before its \<open>return false\<close>:
  the call has no meaning.
\<close>

definition ht_capacity_check ::
  "hash_table \<Rightarrow> capacity_check_call_type \<Rightarrow> allocator
     \<Rightarrow> (bool \<times> hash_table \<times> allocator) outcome \<times> event list" where
  "ht_capacity_check table check_call_type al =
     (if check_call_type \<noteq> ADD \<and> check_call_type \<noteq> DELETE then
        (Undefined, [])
      else
        (let adder = (if check_call_type = ADD then 1 else - 1 :: real);
             numerator = real (unat (size_ht table)) + adder;
             load_factor_with_new_element = numerator / real (unat (capacity table));
             out_of_band =
               (if capacity table = 0 then numerator \<noteq> 0
                else load_factor_with_new_element > HT_MAX_DEFAULT_LOAD_FACTOR
                   \<or> load_factor_with_new_element < HT_MIN_DEFAULT_LOAD_FACTOR)
         in
         if out_of_band then
           (let r = resize_ht table check_call_type al in
            (map_outcome (\<lambda>(t, al'). (True, t, al')) (fst r), snd r))
         else (Returns (True, table, al), [])))"

section \<open>The insertion that takes pointers (ht\_insert)\<close>

datatype hash_check_status = NEW_PAIR_NEW_HASH | NEW_PAIR_REPEATED_HASH | OLD_PAIR_NEW_VALUE

text \<open>
  \<open>strcmp(a, b) == 0\<close> on two buffers of known extent: the comparison walks both until
  they differ or a NUL is met in both; \<open>None\<close> is a read past the end of a buffer.  A C
  string \<open>s\<close> is the buffer \<open>s @ [0]\<close>.
\<close>

fun strcmp_eq :: "byte list \<Rightarrow> byte list \<Rightarrow> bool option" where
  "strcmp_eq (x # xs) (y # ys) =
     (if x \<noteq> y then Some False else if x = 0 then Some True else strcmp_eq xs ys)"
| "strcmp_eq _ _ = None"

text \<open>
  The bytes of the object a key pointer points to, lowest address first: the four bytes
  of an \<open>int\<close>, the eight bytes of a \<open>char*\<close>.
\<close>

definition le_bytes :: "nat \<Rightarrow> 'a::len word \<Rightarrow> byte list" where
  "le_bytes n w = map (\<lambda>i. ucast (drop_bit (8 * i) w)) [0..<n]"

fun storage_bytes :: "key_data \<Rightarrow> byte list" where
  "storage_bytes (Int_stored k) = le_bytes 4 k"
| "storage_bytes (Str_stored NULL) = replicate 8 0"
| "storage_bytes (Str_stored (Ptr a s)) = le_bytes 8 a"

text \<open>
  \<open>check_new_element_hash\<close>.  The \<open>switch\<close> is on the type of the probe key; the type
  stored in the slot is not read.  For a string the probe side of \<open>strcmp\<close> is
  \<open>(const char*)key\<close>, the key pointer itself, while \<open>hash_the_key\<close> and the write in
  \<open>ht_insert\<close> take \<open>key\<close> for a \<open>char**\<close>: the bytes compared are the bytes of the
  pointer object.  The \<open>default\<close> case is a failed \<open>assert\<close>.
\<close>

definition check_new_element_hash ::
  "hash_table \<Rightarrow> size_t \<Rightarrow> key_data pointer \<Rightarrow> key_type \<Rightarrow> hash_check_status outcome" where
  "check_new_element_hash table current_hash key curr_key_type =
     (let current_hash = current_hash AND (capacity table - 1) in
      case elements table of
        NULL \<Rightarrow> Undefined
      | Ptr ea els \<Rightarrow>
          if length els \<le> unat current_hash then Undefined
          else
            (let curr_element = els ! unat current_hash in
             if e_occupied curr_element = 0 then Returns NEW_PAIR_NEW_HASH
             else if curr_key_type = HT_INT_KEY then
               (case key of
                  NULL \<Rightarrow> Undefined
                | Ptr ka d \<Rightarrow>
                    if as_int (k_data (e_key curr_element)) = as_int d
                    then Returns OLD_PAIR_NEW_VALUE
                    else Returns NEW_PAIR_REPEATED_HASH)
             else if curr_key_type = HT_STR_KEY then
               (case as_str (k_data (e_key curr_element)) of
                  None \<Rightarrow> Undefined
                | Some NULL \<Rightarrow> Returns NEW_PAIR_REPEATED_HASH
                | Some (Ptr sa s) \<Rightarrow>
                    (case key of
                       NULL \<Rightarrow> Undefined
                     | Ptr ka d \<Rightarrow>
                         (case strcmp_eq (s @ [0]) (storage_bytes d) of
                            None \<Rightarrow> Undefined
                          | Some True \<Rightarrow> Returns OLD_PAIR_NEW_VALUE
                          | Some False \<Rightarrow> Returns NEW_PAIR_REPEATED_HASH)))
             else Aborts))"

text \<open>
  \<open>boundary_index_check\<close> works on a copy of the table, so its updates of the first and
  last index are lost, and it has a \<open>return\<close> for the failure only: \<open>None\<close> is the call
  that ends without a value.
\<close>

definition boundary_index_check :: "hash_table \<Rightarrow> size_t \<Rightarrow> bool option \<times> event list" where
  "boundary_index_check table new_hashed_index =
     (if new_hashed_index \<ge> capacity table
      then (Some False, [Print Hashed_index_out_of_table_range])
      else (None, []))"

fun failure :: "'a outcome \<Rightarrow> 'b outcome" where
  "failure (Exits c) = Exits c"
| "failure Aborts = Aborts"
| "failure Diverges = Diverges"
| "failure _ = Undefined"

text \<open>
  One pass of \<open>while (!val_write_permission)\<close> for a status other than
  \<open>NEW_PAIR_REPEATED_HASH\<close>.  \<open>Returns True\<close>: the loop ends with the permission to
  write.  \<open>Returns False\<close>: \<open>ht_insert\<close> returns \<open>false\<close> from inside the loop.
\<close>

definition ht_insert_pass ::
  "hash_check_status outcome \<Rightarrow> hash_table \<Rightarrow> size_t \<Rightarrow> bool outcome \<times> event list" where
  "ht_insert_pass status table tmp_hashed_key =
     (case status of
        Returns NEW_PAIR_NEW_HASH \<Rightarrow>
          (case boundary_index_check table tmp_hashed_key of
             (Some False, evs) \<Rightarrow> (Returns False, evs @ [Print Hash_index_boundary_check_failed])
           | (Some True, evs) \<Rightarrow> (Returns True, evs)
           | (None, evs) \<Rightarrow> (Undefined, evs))
      | Returns OLD_PAIR_NEW_VALUE \<Rightarrow> (Returns True, [])
      | other \<Rightarrow> (failure other, []))"

text \<open>
  The loop.  On \<open>NEW_PAIR_REPEATED_HASH\<close> the inner loop
  \<open>while (tmp_hash_check_status != NEW_PAIR_REPEATED_HASH)\<close> is entered with the status
  just set to \<open>NEW_PAIR_REPEATED_HASH\<close>, so its body (the linear probing) never runs,
  the index stays what it was, and the outer loop starts over on the same slot.
\<close>

partial_function (option) ht_insert_loop ::
  "hash_table \<Rightarrow> size_t \<Rightarrow> key_data pointer \<Rightarrow> key_type \<Rightarrow> (bool outcome \<times> event list) option" where
  "ht_insert_loop table tmp_hashed_key key curr_key_type =
     (if check_new_element_hash table tmp_hashed_key key curr_key_type
           = Returns NEW_PAIR_REPEATED_HASH
      then ht_insert_loop table tmp_hashed_key key curr_key_type
      else Some (ht_insert_pass
                   (check_new_element_hash table tmp_hashed_key key curr_key_type)
                   table tmp_hashed_key))"

text \<open>\<open>sizeof\<close> of the C type behind each value tag (LP64).\<close>

definition sizeof_value_type :: "value_type \<Rightarrow> nat option" where
  "sizeof_value_type t =
     (if t = HT_U_INT8_VAL \<or> t = HT_INT8_VAL \<or> t = HT_CHAR_VAL then Some 1
      else if t = HT_U_INT16_VAL \<or> t = HT_INT16_VAL \<or> t = HT_U_SHORT_VAL \<or> t = HT_SHORT_VAL
        then Some 2
      else if t = HT_U_INT32_VAL \<or> t = HT_INT32_VAL \<or> t = HT_U_INT_VAL \<or> t = HT_INT_VAL
            \<or> t = HT_FLOAT_VAL
        then Some 4
      else if t = HT_U_INT64_VAL \<or> t = HT_INT64_VAL \<or> t = HT_U_LONG_VAL \<or> t = HT_LONG_VAL
            \<or> t = HT_U_LONG_LONG_VAL \<or> t = HT_LONG_LONG_VAL \<or> t = HT_DOUBLE_VAL
            \<or> t = HT_STR_VAL \<or> t = HT_ARRAY_VAL
        then Some 8
      else if t = HT_LONG_DOUBLE_VAL then Some 16
      else None)"

text \<open>
  The write of \<open>ht_insert\<close>, through \<open>curr_ht.elements\<close>.  \<open>curr_ht\<close> is the copy of the
  table taken before the capacity check: after a resize its \<open>elements\<close> is the array that
  \<open>resize_ht\<close> has freed.  \<open>curr_ht.size += 1\<close> changes the copy and nothing else.  The
  slot's \<open>occupied\<close> is not written.  (The assignment to \<open>hash_index\<close> names a field that
  \<open>ht_element\<close> does not have, and is left out.)  Each \<open>case\<close> of the value switch stores
  the value pointed to, read as the C type of the tag, and its \<open>sizeof\<close>.
\<close>

definition ht_insert_write ::
  "hash_table \<Rightarrow> hash_table \<Rightarrow> size_t \<Rightarrow> key_data pointer \<Rightarrow> key_type
     \<Rightarrow> byte list pointer \<Rightarrow> value_type \<Rightarrow> pass_method \<Rightarrow> hash_table outcome" where
  "ht_insert_write curr_ht table tmp_hashed_key key curr_key_type value curr_value_type
       value_pass_method =
     (case (elements curr_ht, elements table, key, value) of
        (Ptr ca stale, Ptr ea els, Ptr ka d, Ptr va bytes) \<Rightarrow>
          if ca \<noteq> ea \<or> length els \<le> unat tmp_hashed_key then Undefined
          else
            (let e = els ! unat tmp_hashed_key;
                 new_data =
                   (if curr_key_type = HT_INT_KEY then Some (Int_stored (as_int d))
                    else if curr_key_type = HT_STR_KEY then map_option Str_stored (as_str d)
                    else Some (k_data (e_key e)));
                 typed = (e_value e)\<lparr>v_type := curr_value_type,
                                       v_pass_method := value_pass_method\<rparr>;
                 new_value =
                   (case sizeof_value_type curr_value_type of
                      None \<Rightarrow> Some typed
                    | Some n \<Rightarrow>
                        if length bytes < n then None
                        else Some (typed\<lparr>v_data := Inline (take n bytes),
                                         v_data_size := of_nat n\<rparr>))
             in
             case (new_data, new_value) of
               (Some kd, Some v) \<Rightarrow>
                 Returns (table\<lparr>elements := Ptr ea (els[unat tmp_hashed_key :=
                    e\<lparr>e_key := \<lparr>k_type = curr_key_type, k_data = kd\<rparr>, e_value := v\<rparr>])\<rparr>)
             | _ \<Rightarrow> Undefined)
      | _ \<Rightarrow> Undefined)"

text \<open>
  \<open>ht_insert\<close>.  The result holds the value returned (\<open>None\<close> when the function ends
  without a \<open>return\<close>, as it does after the write), the table and the allocator.  The
  branch for the index 0 calls \<open>printf(stderr, "...")\<close> and returns \<open>false\<close>; what that
  call prints is \<open>Stream_read_as_format\<close>.
\<close>

definition ht_insert ::
  "hash_table pointer \<Rightarrow> key_data pointer \<Rightarrow> key_type \<Rightarrow> byte list pointer \<Rightarrow> value_type
     \<Rightarrow> pass_method \<Rightarrow> allocator
     \<Rightarrow> (bool option \<times> hash_table pointer \<times> allocator) outcome \<times> event list" where
  "ht_insert table key curr_key_type value curr_value_type value_pass_method al =
     (case table of
        NULL \<Rightarrow> (Returns (Some False, NULL, al), [Print NULL_hash_table_pointer])
      | Ptr ta t \<Rightarrow>
          (let (ok, evs0) = check_ht_pair_input key curr_key_type value curr_value_type in
           if \<not> ok then (Returns (Some False, table, al), evs0 @ [Print Invalid_arguments])
           else
             (let curr_ht = t in
              case ht_capacity_check t ADD al of
                (Returns (b, t1, al1), evs1) \<Rightarrow>
                  (case hash_the_key key curr_key_type of
                     (None, evs2) \<Rightarrow> (Undefined, evs1 @ evs2)
                   | (Some h, evs2) \<Rightarrow>
                       (let tmp_hashed_key = h AND (capacity curr_ht - 1) in
                        if tmp_hashed_key = 0 then
                          (Returns (Some False, Ptr ta t1, al1),
                           evs1 @ evs2 @ [Print Stream_read_as_format])
                        else
                          (case ht_insert_loop t1 tmp_hashed_key key curr_key_type of
                             None \<Rightarrow> (Diverges, evs1 @ evs2)
                           | Some (Returns True, evs3) \<Rightarrow>
                               (case ht_insert_write curr_ht t1 tmp_hashed_key key curr_key_type
                                       value curr_value_type value_pass_method of
                                  Returns t2 \<Rightarrow>
                                    (Returns (None, Ptr ta t2, al1), evs1 @ evs2 @ evs3)
                                | other \<Rightarrow> (failure other, evs1 @ evs2 @ evs3))
                           | Some (Returns False, evs3) \<Rightarrow>
                               (Returns (Some False, Ptr ta t1, al1), evs1 @ evs2 @ evs3)
                           | Some (other, evs3) \<Rightarrow> (failure other, evs1 @ evs2 @ evs3))))
              | (other, evs1) \<Rightarrow> (failure other, evs1))))"

section \<open>The insertion that takes a key and a value (ht\_add\_pair)\<close>

text \<open>The argument struct \<open>{ void* ptr; size_t size; }\<close> of \<open>ht_add_pair\<close>.\<close>

record ht_value_arg =
  a_ptr :: "byte list pointer"
  a_size :: size_t

text \<open>
  The comparison inside the probing loop of \<open>ht_add_pair\<close>, a \<open>switch\<close> on the probe
  key's type without a \<open>default\<close>.  \<open>strcmp\<close> on a null or indeterminate pointer has no
  meaning.
\<close>

definition same_key :: "ht_key \<Rightarrow> ht_key \<Rightarrow> bool option" where
  "same_key stored key =
     (if k_type key = HT_INT_KEY then Some (as_int (k_data stored) = as_int (k_data key))
      else if k_type key = HT_STR_KEY then
        (case (as_str (k_data stored), as_str (k_data key)) of
           (Some (Ptr sa s), Some (Ptr ka k)) \<Rightarrow> strcmp_eq (s @ [0]) (k @ [0])
         | _ \<Rightarrow> None)
      else Some False)"

datatype add_probe_result = Same_key size_t | Empty_slot size_t | Probe_undefined

definition add_probe_here :: "ht_element list \<Rightarrow> ht_key \<Rightarrow> size_t \<Rightarrow> add_probe_result option" where
  "add_probe_here els key index =
     (if length els \<le> unat index then Some Probe_undefined
      else
        (let element = els ! unat index in
         if e_occupied element = 0 then Some (Empty_slot index)
         else if k_type (e_key element) \<noteq> k_type key then None
         else
           (case same_key (e_key element) key of
              None \<Rightarrow> Some Probe_undefined
            | Some True \<Rightarrow> Some (Same_key index)
            | Some False \<Rightarrow> None)))"

text \<open>
  \<open>while (table->elements[index].occupied) { ... index = (index + 1) % table->capacity; }\<close>:
  \<open>add_probe_here\<close> is what the loop does at one index, \<open>None\<close> when it moves on.  The
  loop has no bound of its own.
\<close>

partial_function (option) add_probe ::
  "ht_element list \<Rightarrow> size_t \<Rightarrow> ht_key \<Rightarrow> size_t \<Rightarrow> add_probe_result option" where
  "add_probe els cap key index =
     (if add_probe_here els key index = None
      then add_probe els cap key ((index + 1) mod cap)
      else add_probe_here els key index)"

text \<open>The second probing loop, after a resize: \<open>while (occupied) index = (index + 1) % capacity\<close>.\<close>

partial_function (option) probe_free_mod ::
  "ht_element list \<Rightarrow> size_t \<Rightarrow> size_t \<Rightarrow> probe_result option" where
  "probe_free_mod els cap index =
     (if unat index < length els then
        (if e_occupied (els ! unat index) \<noteq> 0
         then probe_free_mod els cap ((index + 1) mod cap)
         else Some (Free_slot index))
      else Some Out_of_bounds)"

text \<open>
  Storing the value: \<open>malloc(value.size)\<close>, \<open>memcpy\<close>, \<open>value_size\<close>.  When \<open>malloc\<close> fails
  the slot is left with a null value pointer and \<open>ht_add_pair\<close> returns.  The flag in the
  result tells whether the value was stored.
\<close>

definition store_value ::
  "ht_element \<Rightarrow> ht_value_arg \<Rightarrow> allocator \<Rightarrow> (ht_element \<times> bool \<times> allocator) outcome \<times> event list" where
  "store_value element value al =
     (let (copy_addr, al1) = allocate al in
      if copy_addr = 0 then
        (Returns (element\<lparr>e_value := (e_value element)\<lparr>v_data := Blob NULL\<rparr>\<rparr>, False, al1),
         [Allocated 0, Print Failed_to_allocate_memory_for_value])
      else
        (case a_ptr value of
           NULL \<Rightarrow> (Undefined, [Allocated copy_addr])
         | Ptr va bytes \<Rightarrow>
             if length bytes < unat (a_size value) then (Undefined, [Allocated copy_addr])
             else
               (Returns
                  (element\<lparr>e_value := (e_value element)
                      \<lparr>v_data := Blob (Ptr copy_addr (take (unat (a_size value)) bytes)),
                       v_data_size := a_size value\<rparr>\<rparr>, True, al1),
                [Allocated copy_addr])))"

text \<open>
  The branch for a key that is already there: \<open>free(element->value)\<close>, then the store.
  Freeing what is not a pointer has no meaning; \<open>free(NULL)\<close> does nothing.  When
  \<open>value.ptr\<close> is the payload that has just been freed, the \<open>memcpy\<close> that follows a
  successful \<open>malloc\<close> reads a freed block.
\<close>

definition replace_value ::
  "ht_element \<Rightarrow> ht_value_arg \<Rightarrow> allocator \<Rightarrow> (ht_element \<times> bool \<times> allocator) outcome \<times> event list" where
  "replace_value element value al =
     (case v_data (e_value element) of
        Inline bytes \<Rightarrow> (Undefined, [])
      | Blob NULL \<Rightarrow> store_value element value al
      | Blob (Ptr old_addr old_bytes) \<Rightarrow>
          if fst (allocate al) \<noteq> 0
             \<and> (case a_ptr value of NULL \<Rightarrow> False | Ptr va bytes \<Rightarrow> va = old_addr)
          then (Undefined, [Freed old_addr, Allocated (fst (allocate al))])
          else with_events [Freed old_addr] (store_value element value al))"

text \<open>
  The branch for a new key, from \<open>ht_element* element = &table->elements[index]\<close> on.
  When \<open>strdup\<close> fails the function returns with the slot marked occupied and a null key.
\<close>

definition insert_new ::
  "hash_table \<Rightarrow> size_t \<Rightarrow> ht_key \<Rightarrow> ht_value_arg \<Rightarrow> allocator
     \<Rightarrow> (hash_table \<times> allocator) outcome \<times> event list" where
  "insert_new table index key value al =
     (case elements table of
        NULL \<Rightarrow> (Undefined, [])
      | Ptr ea els \<Rightarrow>
          if length els \<le> unat index then (Undefined, [])
          else
            (let element = (els ! unat index)\<lparr>e_occupied := 1\<rparr>;
                 put = (\<lambda>e. table\<lparr>elements := Ptr ea (els[unat index := e])\<rparr>)
             in
             if k_type key = HT_STR_KEY then
               (case as_str (k_data key) of
                  Some (Ptr ka k) \<Rightarrow>
                    (let (copy_addr, al1) = allocate al in
                     if copy_addr = 0 then
                       (Returns
                          (put (element\<lparr>e_key := \<lparr>k_type = HT_STR_KEY,
                                                    k_data = Str_stored NULL\<rparr>\<rparr>), al1),
                        [Allocated 0, Print Failed_to_duplicate_string_key])
                     else
                       (let keyed = element\<lparr>e_key := \<lparr>k_type = HT_STR_KEY,
                              k_data = Str_stored (Ptr copy_addr (takeWhile (\<lambda>b. b \<noteq> 0) k))\<rparr>\<rparr>;
                            r = store_value keyed value al1
                        in
                        (map_outcome (\<lambda>(e, ok, al2). (put e, al2)) (fst r),
                         Allocated copy_addr # snd r)))
                | _ \<Rightarrow> (Undefined, []))
             else
               (let r = store_value (element\<lparr>e_key := key\<rparr>) value al in
                (map_outcome (\<lambda>(e, ok, al2). (put e, al2)) (fst r), snd r))))"

text \<open>
  \<open>ht_add_pair\<close>.  Its first two \<open>switch\<close>es are on \<open>k_type\<close> and \<open>v_type\<close>, names the
  function does not declare: they are parameters of the model.  Their \<open>default\<close> frees the
  table and returns.  The calls of the hash functions pass the capacity as a second
  argument that the functions do not take; the call of \<open>resize_ht\<close> passes no call type,
  and the comment over it says that it grows the table: the model calls it with \<open>ADD\<close>.
  The load factor is a \<open>float\<close>, computed exactly in the model (which a \<open>float\<close> does
  for capacities below \<open>2^22\<close>).
\<close>

definition ht_add_pair ::
  "hash_table pointer \<Rightarrow> key_type \<Rightarrow> value_type \<Rightarrow> ht_key \<Rightarrow> ht_value_arg \<Rightarrow> allocator
     \<Rightarrow> (hash_table pointer \<times> allocator) outcome \<times> event list" where
  "ht_add_pair table k_type_arg v_type_arg key value al =
     (if \<not> key_type_check k_type_arg then
        (Returns (NULL, al),
         Print Invalid_key_type_in_ht_create # (case table of NULL \<Rightarrow> [] | Ptr ta t \<Rightarrow> [Freed ta]))
      else if \<not> value_type_check v_type_arg then
        (Returns (NULL, al),
         Print Invalid_value_type_in_ht_create # (case table of NULL \<Rightarrow> [] | Ptr ta t \<Rightarrow> [Freed ta]))
      else
        (case table of
           NULL \<Rightarrow> (Returns (table, al), [Print Invalid_table_pointer])
         | Ptr ta t \<Rightarrow>
             (case elements t of
                NULL \<Rightarrow> (Returns (table, al), [Print Invalid_table_pointer])
              | Ptr ea els \<Rightarrow>
                  if a_ptr value = NULL then (Returns (table, al), [Print Value_pointer_is_NULL])
                  else if k_type key \<noteq> HT_INT_KEY \<and> k_type key \<noteq> HT_STR_KEY then
                    (Returns (table, al), [Print Unknown_key_type_in_add])
                  else
                    (case (if k_type key = HT_INT_KEY then Some (hash_int (as_int (k_data key)))
                           else (case as_str (k_data key) of
                                   Some (Ptr ka k) \<Rightarrow> Some (hash_str k)
                                 | _ \<Rightarrow> None)) of
                       None \<Rightarrow> (Undefined, [])
                     | Some hash_value \<Rightarrow>
                         if capacity t = 0 then (Undefined, [])
                         else
                           (case add_probe els (capacity t) key (hash_value mod capacity t) of
                              None \<Rightarrow> (Diverges, [])
                            | Some Probe_undefined \<Rightarrow> (Undefined, [])
                            | Some (Same_key index) \<Rightarrow>
                                (let r = replace_value (els ! unat index) value al in
                                 (map_outcome
                                    (\<lambda>(e, ok, al1).
                                       (Ptr ta (t\<lparr>elements := Ptr ea (els[unat index := e])\<rparr>), al1))
                                    (fst r),
                                  snd r))
                            | Some (Empty_slot index) \<Rightarrow>
                                (let t1 = t\<lparr>size_ht := size_ht t + 1\<rparr>;
                                     load_factor = real (unat (size_ht t1)) / real (unat (capacity t1))
                                 in
                                 if load_factor > max_load_factor t1 then
                                   (case resize_ht t1 ADD al of
                                      (Returns (t2, al1), evs) \<Rightarrow>
                                        (case elements t2 of
                                           NULL \<Rightarrow> (Undefined, evs)
                                         | Ptr ea2 els2 \<Rightarrow>
                                             (case probe_free_mod els2 (capacity t2)
                                                     (hash_value mod capacity t2) of
                                                None \<Rightarrow> (Diverges, evs)
                                              | Some Out_of_bounds \<Rightarrow> (Undefined, evs)
                                              | Some (Free_slot index2) \<Rightarrow>
                                                  (let r = insert_new t2 index2 key value al1 in
                                                   (map_outcome (\<lambda>(t3, al2). (Ptr ta t3, al2)) (fst r),
                                                    evs @ snd r))))
                                    | (other, evs) \<Rightarrow> (failure other, evs))
                                 else
                                   (let r = insert_new t1 index key value al in
                                    (map_outcome (\<lambda>(t3, al2). (Ptr ta t3, al2)) (fst r),
                                     snd r))))))))"

section \<open>Notions used to state the properties\<close>

text \<open>
  A capacity is a power of two when it is not zero and shares no bit with its predecessor.
\<close>

definition is_power_of_two :: "size_t \<Rightarrow> bool" where
  "is_power_of_two c \<longleftrightarrow> c \<noteq> 0 \<and> c AND (c - 1) = 0"

definition is_occupied :: "ht_element \<Rightarrow> bool" where
  "is_occupied e \<longleftrightarrow> e_occupied e \<noteq> 0"

text \<open>
  The logical value of a stored key: the \<open>int\<close>, or the characters of the string (not its
  address).  A string key whose pointer is null or indeterminate has none.
\<close>

definition key_value :: "ht_key \<Rightarrow> (c_int + cstr) option" where
  "key_value k =
     (if k_type k = HT_STR_KEY then
        (case as_str (k_data k) of
           Some (Ptr a s) \<Rightarrow> Some (Inr (takeWhile (\<lambda>b. b \<noteq> 0) s))
         | _ \<Rightarrow> None)
      else Some (Inl (as_int (k_data k))))"

text \<open>
  What an occupied slot holds, as a key/value pair: the key's type and logical value, and
  the value struct as it is.  \<open>entries\<close> is the multiset of the pairs of an array.
\<close>

definition entry :: "ht_element \<Rightarrow> key_type \<times> (c_int + cstr) option \<times> ht_value" where
  "entry e = (k_type (e_key e), key_value (e_key e), e_value e)"

definition entries ::
  "ht_element list \<Rightarrow> (key_type \<times> (c_int + cstr) option \<times> ht_value) multiset" where
  "entries els = mset (map entry (filter is_occupied els))"

text \<open>A key as the insertions store it: an \<open>int\<close>, or a string with a pointer to its characters.\<close>

definition valid_key :: "ht_key \<Rightarrow> bool" where
  "valid_key k \<longleftrightarrow>
     k_type k = HT_INT_KEY
     \<or> (k_type k = HT_STR_KEY \<and> (case k_data k of Str_stored (Ptr a s) \<Rightarrow> True | _ \<Rightarrow> False))"

text \<open>
  The digest of a key's logical value in the words of the specification, written without
  the hash functions of the code: for an \<open>int\<close> key the key as a \<open>uint32\<close> times
  \<open>2654435769\<close>, a product of 32 bits; for a string DJB2, which starts from 5381 and takes
  \<open>digest * 33 + byte\<close> for each byte.
\<close>

definition knuth_digest :: "c_int \<Rightarrow> size_t" where
  "knuth_digest k = of_nat ((unat k * 2654435769) mod 2 ^ 32)"

definition djb2_digest :: "cstr \<Rightarrow> size_t" where
  "djb2_digest s = foldl (\<lambda>digest b. digest * 33 + ucast b) 5381 s"

definition digest_of :: "c_int + cstr \<Rightarrow> size_t" where
  "digest_of v = (case v of Inl k \<Rightarrow> knuth_digest k | Inr s \<Rightarrow> djb2_digest s)"

text \<open>
  The bucket of a key under a capacity, \<open>digest & (capacity - 1)\<close>, and the invariant of
  linear probing: every occupied slot is reached from the bucket of its key by stepping
  over occupied slots only, so that a search which stops at the first empty slot cannot
  miss it.
\<close>

definition home_index :: "ht_key \<Rightarrow> size_t \<Rightarrow> nat" where
  "home_index k cap =
     (case key_value k of Some v \<Rightarrow> unat (digest_of v AND (cap - 1)) | None \<Rightarrow> 0)"

definition chain_ok :: "ht_element list \<Rightarrow> size_t \<Rightarrow> bool" where
  "chain_ok els cap \<longleftrightarrow>
     (\<forall>n < length els. is_occupied (els ! n) \<longrightarrow>
        (\<exists>d < length els. n = (home_index (e_key (els ! n)) cap + d) mod length els
           \<and> (\<forall>d' < d. is_occupied
                 (els ! ((home_index (e_key (els ! n)) cap + d') mod length els)))))"






text \<open>The number of string keys of an array: one \<open>strdup\<close> of the rehash for each.\<close>

definition string_keys :: "ht_element list \<Rightarrow> nat" where
  "string_keys els = length (filter (\<lambda>e. is_occupied e \<and> k_type (e_key e) = HT_STR_KEY) els)"

text \<open>
  The rehash in the words of the specification, to compare \<open>rehash\<close> with.  The old
  slots are visited in slot order; an occupied one has its bucket computed from its key
  under the new capacity and is put at the first empty slot of the new array that linear
  probing from the bucket finds, wrapping at the end; an \<open>int\<close> key moves as it is and a
  string key is copied into storage that the allocator serves.  \<open>None\<close> is a new array
  without an empty slot.
\<close>

definition first_empty_slot :: "ht_element list \<Rightarrow> nat \<Rightarrow> nat option" where
  "first_empty_slot els start =
     map_option (\<lambda>d. (start + d) mod length els)
       (find (\<lambda>d. \<not> is_occupied (els ! ((start + d) mod length els))) [0..<length els])"

definition moved_entry :: "ht_element \<Rightarrow> size_t \<Rightarrow> ht_element" where
  "moved_entry e copy_addr =
     \<lparr>e_key =
        (if k_type (e_key e) = HT_STR_KEY then
           \<lparr>k_type = HT_STR_KEY,
            k_data = (case k_data (e_key e) of
                        Str_stored (Ptr a s) \<Rightarrow>
                          Str_stored (Ptr copy_addr (takeWhile (\<lambda>b. b \<noteq> 0) s))
                      | other \<Rightarrow> other)\<rparr>
         else e_key e),
      e_value = e_value e, e_occupied = 1\<rparr>"

fun rehash_in_slot_order ::
  "ht_element list \<Rightarrow> ht_element list \<Rightarrow> size_t \<Rightarrow> allocator \<Rightarrow> ht_element list option" where
  "rehash_in_slot_order [] new_elements new_capacity al = Some new_elements"
| "rehash_in_slot_order (e # rest) new_elements new_capacity al =
     (if \<not> is_occupied e then rehash_in_slot_order rest new_elements new_capacity al
      else
        (case first_empty_slot new_elements (home_index (e_key e) new_capacity) of
           None \<Rightarrow> None
         | Some n \<Rightarrow>
             (if k_type (e_key e) = HT_STR_KEY then
                rehash_in_slot_order rest (new_elements[n := moved_entry e (fst (allocate al))])
                  new_capacity (snd (allocate al))
              else
                rehash_in_slot_order rest (new_elements[n := moved_entry e 0]) new_capacity al)))"


section \<open>Concrete tables\<close>

text \<open>
  Slots as \<open>ht_add_pair\<close> fills them: the key, a copy of the value's bytes at \<open>a\<close>, the
  occupancy flag; the other members of the value are what \<open>calloc\<close> left.
\<close>

definition int_entry :: "c_int \<Rightarrow> size_t \<Rightarrow> byte list \<Rightarrow> ht_element" where
  "int_entry k a bytes =
     \<lparr>e_key = \<lparr>k_type = HT_INT_KEY, k_data = Int_stored k\<rparr>,
      e_value = \<lparr>v_type = 0, v_pass_method = 0, v_data = Blob (Ptr a bytes),
                 v_data_size = of_nat (length bytes)\<rparr>,
      e_occupied = 1\<rparr>"

definition str_entry :: "size_t \<Rightarrow> cstr \<Rightarrow> size_t \<Rightarrow> byte list \<Rightarrow> ht_element" where
  "str_entry ka k a bytes =
     \<lparr>e_key = \<lparr>k_type = HT_STR_KEY, k_data = Str_stored (Ptr ka k)\<rparr>,
      e_value = \<lparr>v_type = 0, v_pass_method = 0, v_data = Blob (Ptr a bytes),
                 v_data_size = of_nat (length bytes)\<rparr>,
      e_occupied = 1\<rparr>"

text \<open>A table of the initial capacity around the array \<open>els\<close> at address \<open>0x2000\<close>.\<close>

definition table16 :: "ht_element list \<Rightarrow> size_t \<Rightarrow> hash_table" where
  "table16 els n =
     \<lparr>elements = Ptr 0x2000 els, capacity = 16, size_ht = n,
      max_load_factor = HT_MAX_DEFAULT_LOAD_FACTOR,
      first_element_hash_index = None, last_element_hash_index = None\<rparr>"

text \<open>
  The table after the \<open>int\<close> keys 1 to 12 have been added to a new table (\<open>2654435769 * k\<close>
  ends in the hexadecimal digit \<open>9 * k mod 16\<close>, so no two of them share a bucket): key
  \<open>k\<close> has the one-byte value \<open>k\<close>, copied to address \<open>0x100 * k\<close>.
\<close>

definition twelve_keys :: "ht_element list" where
  "twelve_keys =
     (replicate 16 zero_element)
       [9 := int_entry 1 0x100 [1], 2 := int_entry 2 0x200 [2], 11 := int_entry 3 0x300 [3],
        4 := int_entry 4 0x400 [4], 13 := int_entry 5 0x500 [5], 6 := int_entry 6 0x600 [6],
        15 := int_entry 7 0x700 [7], 8 := int_entry 8 0x800 [8], 1 := int_entry 9 0x900 [9],
        10 := int_entry 10 0xA00 [10], 3 := int_entry 11 0xB00 [11],
        12 := int_entry 12 0xC00 [12]]"

text \<open>The first five of them: the table after the \<open>int\<close> keys 1 to 5 have been added.\<close>

definition five_keys :: "ht_element list" where
  "five_keys =
     (replicate 16 zero_element)
       [9 := int_entry 1 0x100 [1], 2 := int_entry 2 0x200 [2], 11 := int_entry 3 0x300 [3],
        4 := int_entry 4 0x400 [4], 13 := int_entry 5 0x500 [5]]"

text \<open>
  Two \<open>int\<close> keys with the same bucket: 1 and 17 both hash to bucket 9 under the capacity
  16, so that 17, added second, sits in slot 10.
\<close>

definition collided_keys :: "ht_element list" where
  "collided_keys =
     (replicate 16 zero_element)
       [9 := int_entry 1 0x100 [1], 10 := int_entry 17 0x110 [17]]"

text \<open>
  A table of capacity 16 with the string key \<open>"abc"\<close> (bucket 11), stored at \<open>0x4000\<close>, and
  the \<open>int\<close> key 4 (bucket 4).
\<close>

definition two_keys :: "ht_element list" where
  "two_keys =
     (replicate 16 zero_element)
       [11 := str_entry 0x4000 [97, 98, 99] 0x4100 [1, 0, 0, 0], 4 := int_entry 4 0x400 [4]]"

text \<open>
  A table of capacity 32 that holds the string key \<open>"k"\<close> in its bucket 16, the characters
  at \<open>0x1010\<close>, among seven \<open>int\<close> keys.
\<close>

definition mixed_keys :: "ht_element list" where
  "mixed_keys =
     (replicate 32 zero_element)
       [16 := str_entry 0x1010 [107] 0x1100 [7], 25 := int_entry 1 0x100 [1],
        18 := int_entry 2 0x200 [2], 11 := int_entry 3 0x300 [3], 4 := int_entry 4 0x400 [4],
        29 := int_entry 5 0x500 [5], 22 := int_entry 6 0x600 [6], 15 := int_entry 7 0x700 [7]]"

definition table32 :: "ht_element list \<Rightarrow> size_t \<Rightarrow> hash_table" where
  "table32 els n =
     \<lparr>elements = Ptr 0x3000 els, capacity = 32, size_ht = n,
      max_load_factor = HT_MAX_DEFAULT_LOAD_FACTOR,
      first_element_hash_index = None, last_element_hash_index = None\<rparr>"

text \<open>
  \<open>ht_add_pair\<close> for an \<open>int\<close> key \<open>k\<close> with the one-byte value \<open>k\<close>, as a step from
  one state to the next.
\<close>

definition add_int_key ::
  "(hash_table pointer \<times> allocator) outcome \<Rightarrow> c_int
     \<Rightarrow> (hash_table pointer \<times> allocator) outcome" where
  "add_int_key st k =
     (case st of
        Returns (table, al) \<Rightarrow>
          fst (ht_add_pair table HT_INT_KEY HT_U_INT8_VAL
                 \<lparr>k_type = HT_INT_KEY, k_data = Int_stored k\<rparr>
                 \<lparr>a_ptr = Ptr 0x7000 [ucast k], a_size = 1\<rparr> al)
      | other \<Rightarrow> other)"

section \<open>Evaluation on concrete inputs\<close>

lemma replicate_numeral: "replicate (numeral k) x = x # replicate (pred_numeral k) x"
  by (simp add: numeral_eq_Suc)

lemma list_update_Cons_numeral: "(x # xs)[numeral k := y] = x # xs[pred_numeral k := y]"
  by (simp add: numeral_eq_Suc)

lemma zero_element_simps:
  "e_occupied zero_element = 0"
  "e_value zero_element = \<lparr>v_type = 0, v_pass_method = 0, v_data = Blob NULL, v_data_size = 0\<rparr>"
  "e_key zero_element = \<lparr>k_type = 0, k_data = Str_stored NULL\<rparr>"
  by (simp_all add: zero_element_def)

lemma entry_simps:
  "e_occupied (int_entry k a bytes) = 1"
  "e_key (int_entry k a bytes) = \<lparr>k_type = HT_INT_KEY, k_data = Int_stored k\<rparr>"
  "e_occupied (str_entry ka s a bytes) = 1"
  "e_key (str_entry ka s a bytes) = \<lparr>k_type = HT_STR_KEY, k_data = Str_stored (Ptr ka s)\<rparr>"
  by (simp_all add: int_entry_def str_entry_def)

lemmas constants =
  HT_INITIAL_CAPACITY_def SIZE_MAX_def sizeof_ht_element_def
  HT_MAX_DEFAULT_LOAD_FACTOR_def HT_MIN_DEFAULT_LOAD_FACTOR_def


lemmas list_eval = replicate_numeral list_update_Cons_numeral

lemmas resize_eval =
  resize_ht_def rehash_index_def hash_the_key_def hash_str_def hash_int_def MULTIPLIER_def
  probe_free.simps with_events_def zero_element_simps entry_simps constants list_eval

lemmas insert_eval =
  ht_insert_def check_ht_pair_input_def key_type_check_def value_type_check_def
  ht_capacity_check_def ht_insert_loop.simps ht_insert_pass_def boundary_index_check_def
  check_new_element_hash_def ht_insert_write_def sizeof_value_type_def Let_def

lemmas add_eval =
  ht_add_pair_def key_type_check_def value_type_check_def add_probe.simps add_probe_here_def
  same_key_def replace_value_def store_value_def insert_new_def probe_free_mod.simps Let_def

section \<open>Properties of the hash functions\<close>

lemma hash_str_loop_fold:
  "hash_str_loop h s = foldl (\<lambda>digest b. digest * 33 + ucast b) h (takeWhile (\<lambda>b. b \<noteq> 0) s)"
proof (induction s arbitrary: h)
  case Nil
  show ?case by simp
next
  case (Cons c s)
  have step: "push_bit 5 h + h = h * 33"
    by (simp add: push_bit_eq_mult)
  show ?case
    by (simp add: Cons.IH step)
qed

lemma golden_ratio_bounds:
  "\<bar>2 ^ 32 / ((1 + sqrt 5) / 2) - 2654435769\<bar> < (1 / 2 :: real)"
proof -
  have inv: "2 ^ 32 / ((1 + sqrt 5) / 2) = 2 ^ 31 * (sqrt 5 - 1)"
  proof -
    have "(1 + sqrt 5) * (sqrt 5 - 1) = 4"
      by (simp add: algebra_simps)
    moreover have "1 + sqrt 5 \<noteq> 0"
      by (smt (verit) real_sqrt_ge_zero)
    ultimately have quot: "4 / (1 + sqrt 5) = sqrt 5 - 1"
      by (simp add: field_simps)
    have "2 ^ 32 / ((1 + sqrt 5) / 2) = 2 ^ 31 * (4 / (1 + sqrt 5))"
      by simp
    then show ?thesis
      using quot by simp
  qed
  have lo: "(4801919417 / 2 ^ 31 :: real) < sqrt 5"
    by (rule real_less_rsqrt) (simp add: power2_eq_square)
  have hi: "sqrt 5 < (9603838835 / 2 ^ 32 :: real)"
    by (rule real_less_lsqrt) (simp_all add: power2_eq_square)
  have "2654435769 - 1 / 2 < 2 ^ 31 * (sqrt 5 - 1)"
    using lo by (simp add: field_simps)
  moreover have "2 ^ 31 * (sqrt 5 - 1) < 2654435769 + 1 / 2"
    using hi by (simp add: field_simps)
  ultimately have "\<bar>2 ^ 31 * (sqrt 5 - 1) - 2654435769\<bar> < (1 / 2 :: real)"
    by linarith
  then show ?thesis
    by (simp only: inv)
qed

text \<open>
  Claim C2.  The digest depends on the logical value of the key only.  For an \<open>int\<close> key it
  is the key, converted to \<open>uint32_t\<close>, times 2654435769 in 32-bit arithmetic; 2654435769
  is odd and lies within one half of \<open>2^32\<close> divided by the golden ratio, so it is the
  nearest integer and the nearest odd integer.  For a string key it is DJB2 over every byte
  of the string in front of its NUL, bytes taken as they are (no case folding), in
  \<open>size_t\<close> arithmetic; the address of the string and the address of the key object play
  no part.
\<close>

theorem hash_digest_of_logical_value:
  "int (unat (hash_int k)) = ((sint k mod 2 ^ 32) * 2654435769) mod 2 ^ 32
   \<and> odd (unat MULTIPLIER) \<and> unat MULTIPLIER = 2654435769
   \<and> \<bar>2 ^ 32 / ((1 + sqrt 5) / 2) - real (unat MULTIPLIER)\<bar> < 1 / 2
   \<and> hash_str s = foldl (\<lambda>digest b. digest * 33 + ucast b) 5381 (takeWhile (\<lambda>b. b \<noteq> 0) s)
   \<and> fst (hash_the_key (Ptr a (Int_stored k)) HT_INT_KEY) = Some (hash_int k)
   \<and> fst (hash_the_key (Ptr a (Str_stored (Ptr b s))) HT_STR_KEY) = Some (hash_str s)
   \<and> hash_the_key (Ptr a (Str_stored (Ptr b s))) HT_STR_KEY
       = hash_the_key (Ptr a' (Str_stored (Ptr b' s))) HT_STR_KEY"
proof -
  have "unat (hash_int k) = (unat k * 2654435769) mod 2 ^ 32"
    by (simp add: hash_int_def MULTIPLIER_def unat_word_ariths unsigned_ucast_eq take_bit_eq_mod)
  moreover have "int (unat k) = sint k mod 2 ^ 32"
    by (simp add: uint_sint take_bit_eq_mod)
  ultimately have int_digest:
    "int (unat (hash_int k)) = ((sint k mod 2 ^ 32) * 2654435769) mod 2 ^ 32"
    by (simp add: zmod_int)
  have "unat MULTIPLIER = 2654435769"
    by (simp add: MULTIPLIER_def)
  then have knuth: "odd (unat MULTIPLIER) \<and> unat MULTIPLIER = 2654435769
     \<and> \<bar>2 ^ 32 / ((1 + sqrt 5) / 2) - real (unat MULTIPLIER)\<bar> < 1 / 2"
    using golden_ratio_bounds by simp
  have djb2: "hash_str s
      = foldl (\<lambda>digest b. digest * 33 + ucast b) 5381 (takeWhile (\<lambda>b. b \<noteq> 0) s)"
    by (simp add: hash_str_def hash_str_loop_fold)
  have dispatch_int: "fst (hash_the_key (Ptr a (Int_stored k)) HT_INT_KEY) = Some (hash_int k)"
    by (simp add: hash_the_key_def)
  have dispatch_str:
    "fst (hash_the_key (Ptr a (Str_stored (Ptr b s))) HT_STR_KEY) = Some (hash_str s)"
    by (simp add: hash_the_key_def)
  have address_free: "hash_the_key (Ptr a (Str_stored (Ptr b s))) HT_STR_KEY
     = hash_the_key (Ptr a' (Str_stored (Ptr b' s))) HT_STR_KEY"
    by (simp add: hash_the_key_def)
  from int_digest knuth djb2 dispatch_int dispatch_str address_free show ?thesis
    by blast
qed


section \<open>Creation\<close>

text \<open>
  Claim C9.  \<open>ht_create\<close> works with the capacity 16 and the maximal load factor 0.75
  (the minimal load factor 0.25 is the macro that \<open>ht_capacity_check\<close> reads; the table
  has no member for it).  It allocates the table and a zeroed array of 16 elements and sets
  the size to 0.  It returns \<open>NULL\<close> if the capacity is zero, if the capacity is no power
  of two, or if one of the two allocations fails; the capacity being the constant 16, the
  allocations are what decides, and \<open>NULL\<close> is returned in no other case.
\<close>

theorem ht_create_result:
  "HT_INITIAL_CAPACITY = 16 \<and> HT_MAX_DEFAULT_LOAD_FACTOR = 0.75
   \<and> HT_MIN_DEFAULT_LOAD_FACTOR = 0.25
   \<and> ht_create al =
     (let (table_addr, al1) = allocate al; (elements_addr, al2) = allocate al1 in
      if table_addr = 0 then (NULL, [Allocated 0, Print Failed_to_allocate_hash_table], al1)
      else if elements_addr = 0 then
        (NULL, [Allocated table_addr, Allocated 0, Print Failed_to_allocate_elements,
                Freed table_addr], al2)
      else
        (Ptr table_addr
           \<lparr>elements = Ptr elements_addr (replicate 16 zero_element), capacity = 16, size_ht = 0,
            max_load_factor = 0.75, first_element_hash_index = None,
            last_element_hash_index = None\<rparr>,
         [Allocated table_addr, Allocated elements_addr], al2))
   \<and> (HT_INITIAL_CAPACITY = 0 \<or> \<not> is_power_of_two HT_INITIAL_CAPACITY
        \<or> fst (allocate al) = 0 \<or> fst (allocate (snd (allocate al))) = 0
      \<longrightarrow> fst (ht_create al) = NULL)
   \<and> (fst (ht_create al) = NULL
      \<longrightarrow> fst (allocate al) = 0 \<or> fst (allocate (snd (allocate al))) = 0)"
  by (auto simp add: ht_create_def constants is_power_of_two_def Let_def split: prod.splits)

theorem ht_create_result_witness:
  "fst (allocate (snd (allocate [0x1000]))) = 0
   \<and> ht_create [0x1000]
       = (NULL, [Allocated 0x1000, Allocated 0, Print Failed_to_allocate_elements, Freed 0x1000], [])
   \<and> fst (ht_create [0x1000, 0x2000]) \<noteq> NULL
   \<and> fst (allocate [0x1000, 0x2000]) \<noteq> 0
   \<and> fst (allocate (snd (allocate [0x1000, 0x2000]))) \<noteq> 0"
proof -
  have fails: "fst (allocate (snd (allocate [0x1000]))) = 0"
    by simp
  have "fst (ht_create [0x1000]) = NULL"
    using ht_create_result [of "[0x1000]"] fails by blast
  moreover have "ht_create [0x1000]
       = (NULL, [Allocated 0x1000, Allocated 0, Print Failed_to_allocate_elements, Freed 0x1000], [])"
    using ht_create_result [of "[0x1000]"] by simp
  moreover have "fst (ht_create [0x1000, 0x2000]) \<noteq> NULL"
    using ht_create_result [of "[0x1000, 0x2000]"] by auto
  ultimately show ?thesis
    by simp
qed

section \<open>Rejections of ht\_insert\<close>

text \<open>
  Claim C8.  When the key pointer or the value pointer is null, or a type tag is outside
  its enumeration, \<open>ht_insert\<close> prints the reason and \<open>Invalid arguments\<close>, returns
  \<open>false\<close>, and leaves the table and the allocator as they were: nothing is allocated,
  freed or written.
\<close>

theorem ht_insert_rejects_invalid_arguments:
  assumes "key = NULL \<or> val = NULL \<or> \<not> key_type_check curr_key_type
             \<or> \<not> value_type_check curr_value_type"
  shows "\<exists>m. ht_insert (Ptr ta t) key curr_key_type val curr_value_type value_pass_method al
           = (Returns (Some False, Ptr ta t, al), [Print m, Print Invalid_arguments])"
  using assms by (auto simp add: ht_insert_def check_ht_pair_input_def)

theorem ht_insert_rejects_invalid_arguments_witness:
  "\<not> key_type_check 2
   \<and> (\<exists>m. ht_insert (Ptr 0x1000 (table16 twelve_keys 12)) (Ptr 0x7000 (Int_stored 5)) 2
             (Ptr 0x7100 [1]) HT_U_INT8_VAL 0 [0x3000]
           = (Returns (Some False, Ptr 0x1000 (table16 twelve_keys 12), [0x3000]),
              [Print m, Print Invalid_arguments]))"
proof -
  have bad: "\<not> key_type_check 2"
    by (simp add: key_type_check_def)
  then have "(Ptr 0x7000 (Int_stored 5) :: key_data pointer) = NULL
      \<or> (Ptr 0x7100 [1] :: byte list pointer) = NULL \<or> \<not> key_type_check 2
      \<or> \<not> value_type_check HT_U_INT8_VAL"
    by simp
  from ht_insert_rejects_invalid_arguments [OF this] bad show ?thesis
    by blast
qed

text \<open>
  What \<open>ht_insert\<close> does with a key whose bucket is 0, for every table and every key:
  once the arguments have passed the check and the capacity check has returned, it calls
  \<open>printf\<close> with the stream as the format and returns \<open>false\<close>; the table is the one the
  capacity check left, so the entry is not written.
\<close>

lemma ht_insert_bucket_zero:
  assumes "key \<noteq> NULL" "val \<noteq> NULL" "key_type_check curr_key_type"
    "value_type_check curr_value_type"
    "hash_the_key key curr_key_type = (Some digest, evs2)"
    "digest AND (capacity t - 1) = 0"
  shows "ht_insert (Ptr ta t) key curr_key_type val curr_value_type value_pass_method al
           = (case ht_capacity_check t ADD al of
                (Returns (b, t1, al1), evs1) \<Rightarrow>
                  (Returns (Some False, Ptr ta t1, al1),
                   evs1 @ evs2 @ [Print Stream_read_as_format])
              | (other, evs1) \<Rightarrow> (failure other, evs1))"
  using assms
  by (simp add: ht_insert_def check_ht_pair_input_def split: prod.splits outcome.splits)

text \<open>
  Claim C10 against the code.  The table of capacity 16 below holds the \<open>int\<close> keys 1 to
  5, each in its bucket, and bucket 0 is empty.  The \<open>int\<close> key 16 has the digest
  \<open>0xE3779B90\<close>, whose bucket is 0.  \<open>ht_insert\<close> returns \<open>false\<close> and leaves the table
  as it is, as the claim says, but it reports nothing: the call meant to print
  \<open>Hash operation error\<close> is \<open>printf(stderr, "...")\<close>, where every other report of the
  function is \<open>fprintf(stderr, "...")\<close> or \<open>printf("...")\<close>, and the message is not among
  what the call prints.
\<close>

theorem ht_insert_slot_zero_reports_nothing:
  "fst (hash_the_key (Ptr 0x7000 (Int_stored 16)) HT_INT_KEY) = Some 0xE3779B90
   \<and> (0xE3779B90 :: size_t) AND (capacity (table16 five_keys 5) - 1) = 0
   \<and> \<not> is_occupied (five_keys ! 0)
   \<and> ht_insert (Ptr 0x1000 (table16 five_keys 5)) (Ptr 0x7000 (Int_stored 16)) HT_INT_KEY
        (Ptr 0x7100 [1]) HT_U_INT8_VAL 0 []
      = (Returns (Some False, Ptr 0x1000 (table16 five_keys 5), []),
         [Print Stream_read_as_format])
   \<and> Print Hash_operation_error
        \<notin> set (snd (ht_insert (Ptr 0x1000 (table16 five_keys 5)) (Ptr 0x7000 (Int_stored 16))
                       HT_INT_KEY (Ptr 0x7100 [1]) HT_U_INT8_VAL 0 []))"
  by (simp add: table16_def five_keys_def insert_eval resize_eval is_occupied_def)

section \<open>Resize and rehash\<close>

subsection \<open>Probing under a capacity that is a power of two\<close>

lemma unat_pow2:
  assumes "j < 64"
  shows "unat (2 ^ j :: size_t) = 2 ^ j"
proof -
  have "unat (word_of_nat (2 ^ j) :: size_t) = 2 ^ j mod 2 ^ 64"
    by (simp only: unat_of_nat) simp
  moreover have "(2::nat) ^ j < 2 ^ 64"
    using assms by (intro power_strict_increasing) simp_all
  ultimately show ?thesis
    by simp
qed

lemma mask_step:
  fixes i :: size_t
  assumes "j < 64" "unat i < 2 ^ j"
  shows "unat ((i + 1) AND (2 ^ j - 1)) = (unat i + 1) mod 2 ^ j"
proof -
  have "(2 ^ j - 1 :: size_t) = mask j"
    by (simp add: mask_eq_exp_minus_1)
  then have "(i + 1) AND (2 ^ j - 1) = (i + 1) mod 2 ^ j"
    by (simp add: take_bit_eq_mask [symmetric] take_bit_eq_mod)
  then have "unat ((i + 1) AND (2 ^ j - 1)) = unat (i + 1) mod 2 ^ j"
    by (simp add: unat_mod unat_pow2 [OF assms(1)])
  moreover have "unat (i + 1) = unat i + 1"
  proof -
    have "(2::nat) ^ j < 2 ^ 64"
      using assms(1) by (intro power_strict_increasing) simp_all
    then have "unat i + 1 < 2 ^ 64"
      using assms(2) by linarith
    then show ?thesis
      by (simp add: unat_word_ariths)
  qed
  ultimately show ?thesis by simp
qed

lemma mask_less:
  fixes h :: size_t
  assumes "j < 64"
  shows "unat (h AND (2 ^ j - 1)) < 2 ^ j"
proof -
  have "(2 ^ j - 1 :: size_t) = mask j"
    by (simp add: mask_eq_exp_minus_1)
  then have "h AND (2 ^ j - 1) = h mod 2 ^ j"
    by (simp add: take_bit_eq_mask [symmetric] take_bit_eq_mod)
  then show ?thesis
    by (simp add: unat_mod unat_pow2 [OF assms])
qed


lemma probe_free_walk:
  fixes i :: size_t
  assumes "j < 64" "length els = 2 ^ j"
  shows "unat i < 2 ^ j \<Longrightarrow> \<not> is_occupied (els ! ((unat i + d) mod 2 ^ j))
     \<Longrightarrow> (\<forall>d' < d. is_occupied (els ! ((unat i + d') mod 2 ^ j)))
     \<Longrightarrow> \<exists>r. probe_free els (2 ^ j) i = Some (Free_slot r) \<and> unat r = (unat i + d) mod 2 ^ j"
proof (induction d arbitrary: i)
  case 0
  then have "\<not> is_occupied (els ! unat i)" by simp
  then show ?case
    using 0 assms by (subst probe_free.simps) (simp add: is_occupied_def)
next
  case (Suc d)
  let ?i' = "(i + 1) AND (2 ^ j - 1)"
  have occ: "is_occupied (els ! unat i)"
    using Suc.prems(3) [rule_format, of 0] Suc.prems(1) by simp
  have step: "unat ?i' = (unat i + 1) mod 2 ^ j"
    using mask_step [OF assms(1) Suc.prems(1)] .
  have lt: "unat ?i' < 2 ^ j"
    by (simp add: step)
  have shift: "(unat ?i' + n) mod 2 ^ j = (unat i + Suc n) mod 2 ^ j" for n
    by (simp add: step mod_add_left_eq)
  have free: "\<not> is_occupied (els ! ((unat ?i' + d) mod 2 ^ j))"
    using Suc.prems(2) unfolding shift .
  have path: "\<forall>d' < d. is_occupied (els ! ((unat ?i' + d') mod 2 ^ j))"
  proof (intro allI impI)
    fix d' assume "d' < d"
    then have "is_occupied (els ! ((unat i + Suc d') mod 2 ^ j))"
      using Suc.prems(3) [rule_format, of "Suc d'"] by simp
    then show "is_occupied (els ! ((unat ?i' + d') mod 2 ^ j))"
      unfolding shift .
  qed
  from Suc.IH [OF lt free path] obtain r where
    r: "probe_free els (2 ^ j) ?i' = Some (Free_slot r)" "unat r = (unat ?i' + d) mod 2 ^ j"
    by blast
  have "probe_free els (2 ^ j) i = probe_free els (2 ^ j) ?i'"
    using occ Suc.prems(1) assms(2) by (subst probe_free.simps) (simp add: is_occupied_def)
  moreover have "unat r = (unat i + Suc d) mod 2 ^ j"
    using r(2) unfolding shift .
  ultimately show ?case
    using r(1) by simp
qed

lemma probe_free_total:
  fixes i :: size_t
  assumes "j < 64" "length els = 2 ^ j" "unat i < 2 ^ j"
    and free: "\<exists>e < 2 ^ j. \<not> is_occupied (els ! e)"
  shows "\<exists>r d. probe_free els (2 ^ j) i = Some (Free_slot r) \<and> unat r < 2 ^ j
           \<and> \<not> is_occupied (els ! unat r)
           \<and> d < 2 ^ j \<and> unat r = (unat i + d) mod 2 ^ j
           \<and> (\<forall>d' < d. is_occupied (els ! ((unat i + d') mod 2 ^ j)))"
proof -
  from free obtain e where e: "e < 2 ^ j" "\<not> is_occupied (els ! e)" by blast
  let ?P = "\<lambda>d. \<not> is_occupied (els ! ((unat i + d) mod 2 ^ j))"
  define d0 where "d0 = (e + 2 ^ j - unat i) mod 2 ^ j"
  have "(unat i + d0) mod 2 ^ j = (unat i + (e + 2 ^ j - unat i)) mod 2 ^ j"
    unfolding d0_def by (simp add: mod_add_right_eq)
  also have "\<dots> = e"
    using e(1) assms(3) by simp
  finally have ex: "?P d0"
    using e(2) by simp
  define d where "d = (LEAST d. ?P d)"
  have Pd: "?P d"
    unfolding d_def using ex by (rule LeastI)
  have "d \<le> d0"
    unfolding d_def using ex by (rule Least_le)
  moreover have "d0 < 2 ^ j"
    unfolding d0_def by simp
  ultimately have dlt: "d < 2 ^ j"
    by simp
  have below: "\<forall>d' < d. is_occupied (els ! ((unat i + d') mod 2 ^ j))"
    unfolding d_def using not_less_Least by blast
  from probe_free_walk [OF assms(1,2,3) Pd below] obtain r where
    r: "probe_free els (2 ^ j) i = Some (Free_slot r)" "unat r = (unat i + d) mod 2 ^ j"
    by blast
  then show ?thesis
    using Pd below dlt by auto
qed


lemma rehash_index_address_free:
  "rehash_index p k cap = rehash_index q k cap"
  by (simp add: rehash_index_def hash_the_key_def split: pointer.splits option.splits)

lemma hash_str_takeWhile:
  "hash_str (takeWhile (\<lambda>b. b \<noteq> 0) s) = hash_str s"
  by (simp add: hash_str_def hash_str_loop_fold)

lemma rehash_index_valid:
  assumes "valid_key k" "j < 64"
  shows "\<exists>h. rehash_index p k (2 ^ j) = Some h \<and> unat h < 2 ^ j"
  using assms mask_less [OF assms(2)]
  by (auto simp add: valid_key_def rehash_index_def hash_the_key_def
      split: key_data.splits pointer.splits)

lemma entries_update:
  assumes "r < length els" "\<not> is_occupied (els ! r)" "is_occupied x"
  shows "entries (els[r := x]) = entries els + {#entry x#}"
proof -
  have "entries (els[r := x]) = image_mset entry (filter_mset is_occupied (mset (els[r := x])))"
    by (simp add: entries_def flip: mset_filter mset_map)
  also have "mset (els[r := x]) = add_mset x (mset els - {#els ! r#})"
    using assms(1) by (rule mset_update)
  also have "filter_mset is_occupied (add_mset x (mset els - {#els ! r#}))
      = add_mset x (filter_mset is_occupied (mset els))"
    using assms(2,3) by (simp add: filter_diff_mset)
  finally show ?thesis
    by (simp add: entries_def flip: mset_filter mset_map)
qed

lemma count_update:
  assumes "r < length els" "\<not> is_occupied (els ! r)" "is_occupied x"
  shows "length (filter is_occupied (els[r := x])) = Suc (length (filter is_occupied els))"
proof -
  have "size (entries (els[r := x])) = size (entries els + {#entry x#})"
    using entries_update [OF assms] by simp
  moreover have "size (entries ys) = length (filter is_occupied ys)" for ys
    by (simp only: entries_def size_mset length_map)
  ultimately show ?thesis
    by simp
qed

lemma free_slot_exists:
  assumes "length (filter is_occupied els) < length els"
  shows "\<exists>e < length els. \<not> is_occupied (els ! e)"
proof (rule ccontr)
  assume "\<not> (\<exists>e < length els. \<not> is_occupied (els ! e))"
  then have "\<forall>x \<in> set els. is_occupied x"
    by (metis in_set_conv_nth)
  then have "filter is_occupied els = els"
    by simp
  with assms show False by simp
qed

lemma chain_ok_update:
  assumes ok: "chain_ok els cap"
    and r: "r < length els" "\<not> is_occupied (els ! r)"
    and x: "is_occupied x"
    and d: "d < length els" "r = (home_index (e_key x) cap + d) mod length els"
      "\<forall>d' < d. is_occupied (els ! ((home_index (e_key x) cap + d') mod length els))"
  shows "chain_ok (els[r := x]) cap"
proof -
  have mono: "is_occupied ((els[r := x]) ! m)" if "m < length els" "is_occupied (els ! m)" for m
    using that x by (cases "m = r") simp_all
  have pos: "0 < length els" using r(1) by (cases els) simp_all
  show ?thesis
    unfolding chain_ok_def
  proof (intro allI impI)
    fix n assume n: "n < length (els[r := x])" and occ: "is_occupied ((els[r := x]) ! n)"
    show "\<exists>d<length (els[r := x]).
            n = (home_index (e_key ((els[r := x]) ! n)) cap + d) mod length (els[r := x]) \<and>
            (\<forall>d'<d. is_occupied
                      ((els[r := x]) !
                       ((home_index (e_key ((els[r := x]) ! n)) cap + d') mod length (els[r := x]))))"
    proof (cases "n = r")
      case True
      have "\<forall>d'<d. is_occupied ((els[r := x]) ! ((home_index (e_key x) cap + d') mod length els))"
        using d(3) mono pos by simp
      then show ?thesis
        using True r(1) d(1,2) by auto
    next
      case False
      then have same: "(els[r := x]) ! n = els ! n" by simp
      with occ n have "is_occupied (els ! n)" by simp
      with ok n obtain d0 where d0: "d0 < length els"
        "n = (home_index (e_key (els ! n)) cap + d0) mod length els"
        "\<forall>d'<d0. is_occupied (els ! ((home_index (e_key (els ! n)) cap + d') mod length els))"
        unfolding chain_ok_def by auto
      have "\<forall>d'<d0. is_occupied
          ((els[r := x]) ! ((home_index (e_key (els ! n)) cap + d') mod length els))"
        using d0(3) mono pos by simp
      then show ?thesis
        using d0(1,2) same by auto
    qed
  qed
qed


lemma entries_Cons:
  "entries (e # es) = (if is_occupied e then {#entry e#} + entries es else entries es)"
  by (simp add: entries_def)

lemma hash_int_knuth: "hash_int k = knuth_digest k"
proof -
  have product: "unat ((ucast k :: 32 word) * MULTIPLIER) = (unat k * 2654435769) mod 2 ^ 32"
    by (simp add: unat_word_ariths MULTIPLIER_def)
  have "hash_int k = ucast ((ucast k :: 32 word) * MULTIPLIER)"
    by (simp add: hash_int_def)
  also have "\<dots> = of_nat (unat ((ucast k :: 32 word) * MULTIPLIER))"
    by (rule of_nat_unat [symmetric])
  finally show ?thesis
    unfolding product knuth_digest_def .
qed

lemma hash_str_djb2: "hash_str s = djb2_digest (takeWhile (\<lambda>b. b \<noteq> 0) s)"
  by (simp add: hash_str_def hash_str_loop_fold djb2_digest_def)

lemma home_index_eq:
  assumes "rehash_index p k cap = Some h"
  shows "home_index k cap = unat h"
  using assms
  by (auto simp add: rehash_index_def hash_the_key_def home_index_def key_value_def digest_of_def
      hash_int_knuth hash_str_djb2 split: if_splits option.splits pointer.splits)

lemma rehash_total:
  assumes j: "j < 64"
  shows "length new = 2 ^ j
     \<Longrightarrow> list_all (\<lambda>e. \<not> is_occupied e \<or> valid_key (e_key e)) old
     \<Longrightarrow> length (filter is_occupied new) + length (filter is_occupied old) \<le> 2 ^ j
     \<Longrightarrow> 0 \<notin> set al
     \<Longrightarrow> length (filter (\<lambda>e. is_occupied e \<and> k_type (e_key e) = HT_STR_KEY) old) \<le> length al
     \<Longrightarrow> chain_ok new (2 ^ j)
     \<Longrightarrow> \<exists>new' al' evs. rehash p old new (2 ^ j) al = (Returns (new', al'), evs)
           \<and> length new' = 2 ^ j \<and> entries new' = entries new + entries old
           \<and> chain_ok new' (2 ^ j) \<and> set evs \<subseteq> Allocated ` set al"
proof (induction old arbitrary: p new al)
  case Nil
  then show ?case by (simp add: entries_def)
next
  case (Cons e old)
  show ?case
  proof (cases "is_occupied e")
    case False
    have "\<exists>new' al' evs. rehash (p + sizeof_ht_element) old new (2 ^ j) al = (Returns (new', al'), evs)
           \<and> length new' = 2 ^ j \<and> entries new' = entries new + entries old
           \<and> chain_ok new' (2 ^ j) \<and> set evs \<subseteq> Allocated ` set al"
      using Cons.prems False by (intro Cons.IH) simp_all
    then show ?thesis
      using False by (simp add: entries_Cons is_occupied_def)
  next
    case True
    then have valid: "valid_key (e_key e)"
      using Cons.prems(2) by simp
    from rehash_index_valid [OF valid j] obtain start where
      start: "rehash_index (p + 8) (e_key e) (2 ^ j) = Some start" "unat start < 2 ^ j"
      by blast
    have home: "home_index (e_key e) (2 ^ j) = unat start"
      using start(1) by (rule home_index_eq)
    have "length (filter is_occupied new) < length new"
      using Cons.prems(1,3) True by simp
    then have "\<exists>n < 2 ^ j. \<not> is_occupied (new ! n)"
      using free_slot_exists [of new] Cons.prems(1) by simp
    from probe_free_total [OF j Cons.prems(1) start(2) this] obtain r d where
      r: "probe_free new (2 ^ j) start = Some (Free_slot r)" "unat r < 2 ^ j"
        "\<not> is_occupied (new ! unat r)" "d < 2 ^ j" "unat r = (unat start + d) mod 2 ^ j"
        "\<forall>d' < d. is_occupied (new ! ((unat start + d') mod 2 ^ j))"
      by blast
    have rlen: "unat r < length new"
      using r(2) Cons.prems(1) by simp
    have placed: "\<exists>new' al' evs.
             rehash (p + sizeof_ht_element) old (new[unat r := x]) (2 ^ j) al0 = (Returns (new', al'), evs)
           \<and> length new' = 2 ^ j \<and> entries new' = entries new + entries (e # old)
           \<and> chain_ok new' (2 ^ j) \<and> set evs \<subseteq> Allocated ` set al0"
      if x: "is_occupied x" "entry x = entry e" "home_index (e_key x) (2 ^ j) = unat start"
        and al0: "0 \<notin> set al0"
          "length (filter (\<lambda>e. is_occupied e \<and> k_type (e_key e) = HT_STR_KEY) old) \<le> length al0"
      for x al0
    proof -
      have len: "length (new[unat r := x]) = 2 ^ j"
        using Cons.prems(1) by simp
      have cnt: "length (filter is_occupied (new[unat r := x])) + length (filter is_occupied old) \<le> 2 ^ j"
        using count_update [OF rlen r(3) x(1)] Cons.prems(3) True by simp
      have chain: "chain_ok (new[unat r := x]) (2 ^ j)"
        using Cons.prems(6) rlen r(3) x(1)
      proof (rule chain_ok_update)
        show "d < length new" using r(4) Cons.prems(1) by simp
        show "unat r = (home_index (e_key x) (2 ^ j) + d) mod length new"
          using r(5) x(3) Cons.prems(1) by simp
        show "\<forall>d'<d. is_occupied (new ! ((home_index (e_key x) (2 ^ j) + d') mod length new))"
          using r(6) x(3) Cons.prems(1) by simp
      qed
      have valid_rest: "list_all (\<lambda>e. \<not> is_occupied e \<or> valid_key (e_key e)) old"
        using Cons.prems(2) by simp
      from Cons.IH [OF len valid_rest cnt al0 chain, of "p + sizeof_ht_element"]
      obtain new' al' evs where
        res: "rehash (p + sizeof_ht_element) old (new[unat r := x]) (2 ^ j) al0 = (Returns (new', al'), evs)"
          "length new' = 2 ^ j" "entries new' = entries (new[unat r := x]) + entries old"
          "chain_ok new' (2 ^ j)" "set evs \<subseteq> Allocated ` set al0"
        by blast
      have "entries new' = entries new + entries (e # old)"
        using res(3) entries_update [OF rlen r(3) x(1)] x(2) True by (simp add: entries_Cons)
      with res show ?thesis by blast
    qed
    show ?thesis
    proof (cases "k_type (e_key e) = HT_STR_KEY")
      case False
      let ?x = "\<lparr>e_key = e_key e, e_value = e_value e, e_occupied = 1\<rparr>"
      have "\<exists>new' al' evs.
             rehash (p + sizeof_ht_element) old (new[unat r := ?x]) (2 ^ j) al = (Returns (new', al'), evs)
           \<and> length new' = 2 ^ j \<and> entries new' = entries new + entries (e # old)
           \<and> chain_ok new' (2 ^ j) \<and> set evs \<subseteq> Allocated ` set al"
      proof (rule placed)
        show "is_occupied ?x" by (simp add: is_occupied_def)
        show "entry ?x = entry e" by (simp add: entry_def)
        show "home_index (e_key ?x) (2 ^ j) = unat start" using home by simp
        show "0 \<notin> set al" using Cons.prems(4) .
        show "length (filter (\<lambda>e. is_occupied e \<and> k_type (e_key e) = HT_STR_KEY) old) \<le> length al"
          using Cons.prems(5) False by simp
      qed
      then show ?thesis
        using True False start(1) r(1) by (simp add: is_occupied_def)
    next
      case str: True
      from valid str obtain a s where data: "k_data (e_key e) = Str_stored (Ptr a s)"
        by (auto simp add: valid_key_def split: key_data.splits pointer.splits)
      have "length al \<noteq> 0"
        using Cons.prems(5) True str by auto
      then obtain c al1 where al: "al = c # al1"
        by (cases al) auto
      have c: "c \<noteq> 0" using Cons.prems(4) al by auto
      let ?x = "\<lparr>e_key = \<lparr>k_type = HT_STR_KEY,
                            k_data = Str_stored (Ptr c (takeWhile (\<lambda>b. b \<noteq> 0) s))\<rparr>,
                 e_value = e_value e, e_occupied = 1\<rparr>"
      have "\<exists>new' al' evs.
             rehash (p + sizeof_ht_element) old (new[unat r := ?x]) (2 ^ j) al1 = (Returns (new', al'), evs)
           \<and> length new' = 2 ^ j \<and> entries new' = entries new + entries (e # old)
           \<and> chain_ok new' (2 ^ j) \<and> set evs \<subseteq> Allocated ` set al1"
      proof (rule placed)
        show "is_occupied ?x" by (simp add: is_occupied_def)
        show "entry ?x = entry e"
          using str data by (simp add: entry_def key_value_def)
        have "rehash_index (p + 8) (e_key ?x) (2 ^ j) = rehash_index (p + 8) (e_key e) (2 ^ j)"
          using str data by (simp add: rehash_index_def hash_the_key_def hash_str_takeWhile)
        then show "home_index (e_key ?x) (2 ^ j) = unat start"
          using start(1) by (intro home_index_eq) simp
        show "0 \<notin> set al1" using Cons.prems(4) al by simp
        show "length (filter (\<lambda>e. is_occupied e \<and> k_type (e_key e) = HT_STR_KEY) old) \<le> length al1"
          using Cons.prems(5) True str al by simp
      qed
      then obtain new' al' evs where
        res: "rehash (p + sizeof_ht_element) old (new[unat r := ?x]) (2 ^ j) al1 = (Returns (new', al'), evs)"
          "length new' = 2 ^ j" "entries new' = entries new + entries (e # old)"
          "chain_ok new' (2 ^ j)" "set evs \<subseteq> Allocated ` set al1"
        by blast
      have "rehash p (e # old) new (2 ^ j) al = (Returns (new', al'), Allocated c # evs)"
        using True str start(1) r(1) data al c res(1)
        by (simp add: is_occupied_def with_events_def)
      moreover have "set (Allocated c # evs) \<subseteq> Allocated ` set al"
        using res(5) al by auto
      ultimately show ?thesis
        using res(2,3,4) by blast
    qed
  qed
qed


lemma probe_free_result:
  assumes "probe_free els c i = Some res" "res = Free_slot r"
  shows "unat r < length els \<and> \<not> is_occupied (els ! unat r)"
  using assms
proof (induct rule: probe_free.raw_induct [rotated 1, consumes 1, case_names step])
  case (step probe_free' els c i res)
  then show ?case
    by (auto simp add: is_occupied_def split: if_splits)
qed

lemma probe_free_first_empty:
  fixes i :: size_t
  assumes j: "j < 64" and len: "length els = 2 ^ j" and i: "unat i < 2 ^ j"
    and res: "probe_free els (2 ^ j) i = Some (Free_slot r)"
  shows "first_empty_slot els (unat i) = Some (unat r)"
proof -
  from probe_free_result [OF res refl] have "unat r < length els" "\<not> is_occupied (els ! unat r)"
    by simp_all
  then have "\<exists>e < 2 ^ j. \<not> is_occupied (els ! e)"
    using len by auto
  from probe_free_total [OF j len i this] res obtain d where
    d: "d < 2 ^ j" "unat r = (unat i + d) mod 2 ^ j" "\<not> is_occupied (els ! unat r)"
      "\<forall>d' < d. is_occupied (els ! ((unat i + d') mod 2 ^ j))"
    by auto
  let ?P = "\<lambda>d. \<not> is_occupied (els ! ((unat i + d) mod length els))"
  have "find ?P [0..<length els] = Some d"
    unfolding find_Some_iff
  proof (intro exI [of _ d] conjI allI impI)
    show "d < length [0..<length els]" using d(1) len by simp
    show "?P ([0..<length els] ! d)" using d(1,2,3) len by simp
    show "d = [0..<length els] ! d" using d(1) len by simp
    fix k assume "k < d"
    then show "\<not> ?P ([0..<length els] ! k)"
      using d(1,4) len by simp
  qed
  then show ?thesis
    using d(2) len by (simp add: first_empty_slot_def)
qed

lemma rehash_refines:
  assumes j: "j < 64"
  shows "length new = 2 ^ j
     \<Longrightarrow> rehash p old new (2 ^ j) al = (Returns (new', al'), evs)
     \<Longrightarrow> rehash_in_slot_order old new (2 ^ j) al = Some new'"
proof (induction old arbitrary: p new al evs)
  case Nil
  then show ?case by simp
next
  case (Cons e old)
  show ?case
  proof (cases "is_occupied e")
    case False
    then have "rehash (p + sizeof_ht_element) old new (2 ^ j) al = (Returns (new', al'), evs)"
      using Cons.prems(2) by (simp add: is_occupied_def)
    from Cons.IH [OF Cons.prems(1) this] False show ?thesis by simp
  next
    case True
    then have occ: "e_occupied e \<noteq> 0" by (simp add: is_occupied_def)
    from Cons.prems(2) occ obtain start where
      start: "rehash_index (p + 8) (e_key e) (2 ^ j) = Some start"
      by (cases "rehash_index (p + 8) (e_key e) (2 ^ j)") auto
    have home: "home_index (e_key e) (2 ^ j) = unat start"
      using start by (rule home_index_eq)
    have lt: "unat start < 2 ^ j"
      using start mask_less [OF j]
      by (auto simp add: rehash_index_def split: if_splits option.splits)
    from Cons.prems(2) occ start obtain r where
      r: "probe_free new (2 ^ j) start = Some (Free_slot r)"
      by (cases "probe_free new (2 ^ j) start") (auto split: probe_result.splits)
    have slot: "first_empty_slot new (home_index (e_key e) (2 ^ j)) = Some (unat r)"
      unfolding home using j Cons.prems(1) lt r by (rule probe_free_first_empty)
    show ?thesis
    proof (cases "k_type (e_key e) = HT_STR_KEY")
      case False
      let ?new = "new[unat r := \<lparr>e_key = e_key e, e_value = e_value e, e_occupied = 1\<rparr>]"
      have "rehash (p + sizeof_ht_element) old ?new (2 ^ j) al = (Returns (new', al'), evs)"
        using Cons.prems(2) occ start r False by simp
      moreover have "length ?new = 2 ^ j" using Cons.prems(1) by simp
      ultimately have "rehash_in_slot_order old ?new (2 ^ j) al = Some new'"
        using Cons.IH by blast
      then show ?thesis
        using True False slot by (simp add: moved_entry_def)
    next
      case str: True
      from Cons.prems(2) occ start r str obtain a s where
        ptr: "as_str (k_data (e_key e)) = Some (Ptr a s)"
        by (cases "as_str (k_data (e_key e))") (auto split: pointer.splits)
      then have data: "k_data (e_key e) = Str_stored (Ptr a s)"
        by (cases "k_data (e_key e)") simp_all
      obtain copy_addr al1 where al: "allocate al = (copy_addr, al1)"
        by (cases "allocate al")
      let ?new = "new[unat r :=
           \<lparr>e_key = \<lparr>k_type = HT_STR_KEY,
                     k_data = Str_stored (Ptr copy_addr (takeWhile (\<lambda>b. b \<noteq> 0) s))\<rparr>,
            e_value = e_value e, e_occupied = 1\<rparr>]"
      from Cons.prems(2) occ start r str ptr al obtain evs' where
        "rehash (p + sizeof_ht_element) old ?new (2 ^ j) al1 = (Returns (new', al'), evs')"
        by (cases "rehash (p + sizeof_ht_element) old ?new (2 ^ j) al1")
          (auto simp add: with_events_def split: if_splits)
      moreover have "length ?new = 2 ^ j" using Cons.prems(1) by simp
      ultimately have "rehash_in_slot_order old ?new (2 ^ j) al1 = Some new'"
        using Cons.IH by blast
      then show ?thesis
        using True str slot data al by (simp add: moved_entry_def)
    qed
  qed
qed

lemma entries_replicate_zero: "entries (replicate n zero_element) = {#}"
  by (simp add: entries_def is_occupied_def zero_element_def)

lemma count_replicate_zero: "filter is_occupied (replicate n zero_element) = []"
  by (simp add: is_occupied_def zero_element_def)

lemma chain_ok_replicate_zero: "chain_ok (replicate n zero_element) cap"
  by (simp add: chain_ok_def is_occupied_def zero_element_def)

lemma pow2_double:
  assumes "j < 63"
  shows "(2 ^ j :: size_t) * 2 = 2 ^ Suc j" "\<not> (2 ^ j :: size_t) > SIZE_MAX div 2"
proof -
  show "(2 ^ j :: size_t) * 2 = 2 ^ Suc j" by simp
  have "(2::nat) ^ j < 2 ^ 63"
    using assms by (intro power_strict_increasing) simp_all
  moreover have "unat (2 ^ j :: size_t) = 2 ^ j"
    using assms by (intro unat_pow2) simp
  moreover have "unat (SIZE_MAX div 2) = 2 ^ 63 - 1"
    by (simp add: SIZE_MAX_def)
  ultimately show "\<not> (2 ^ j :: size_t) > SIZE_MAX div 2"
    by (simp add: word_less_nat_alt)
qed

lemma pow2_halve:
  assumes "4 < j" "j < 64"
  shows "(2 ^ j :: size_t) div 2 = 2 ^ (j - 1)" "\<not> (2 ^ j :: size_t) \<le> HT_INITIAL_CAPACITY"
proof -
  have u: "unat (2 ^ j :: size_t) = 2 ^ j" "unat (2 ^ (j - 1) :: size_t) = 2 ^ (j - 1)"
    using assms by (simp_all add: unat_pow2)
  have "(2::nat) ^ j = 2 * 2 ^ (j - 1)"
    using assms(1) by (cases j) simp_all
  then have "unat ((2 ^ j :: size_t) div 2) = unat (2 ^ (j - 1) :: size_t)"
    using u by (simp add: unat_div)
  then show "(2 ^ j :: size_t) div 2 = 2 ^ (j - 1)"
    by (simp only: word_unat_eq_iff)
  have "(2::nat) ^ 5 \<le> 2 ^ j"
    using assms(1) by (intro power_increasing) simp_all
  then show "\<not> (2 ^ j :: size_t) \<le> HT_INITIAL_CAPACITY"
    using u(1) by (simp add: word_le_nat_alt HT_INITIAL_CAPACITY_def)
qed

subsection \<open>The resize as a whole\<close>

text \<open>
  What \<open>resize_ht\<close> does when no allocation fails.  Take a table whose capacity is a
  power of two, whose array has that many elements and whose occupied slots hold \<open>int\<close>
  keys or string keys with a pointer to their characters; let the table grow (capacity
  below \<open>2^63\<close>), or shrink (capacity above 16, the entries fitting into half of it); and
  let the allocator serve the new array and one copy for each string key.  Then
  \<open>resize_ht\<close> returns.  It has allocated a zeroed array of the new capacity, and the new
  array is the one \<open>rehash_in_slot_order\<close> computes from it: the old slots visited in
  order, each entry put at the first empty slot that linear probing finds from the bucket
  of its key under the new capacity, each string key copied into storage of its own.  The
  new array holds the same key/value pairs as the old one, values unchanged, and every
  entry is reached from the bucket of its key over occupied slots only.  The old array is
  freed and the table points to the new one.  Every event between the allocation of the
  new array and the release of the old one is an allocation.
\<close>

lemma resize_ht_moves_every_entry:
  assumes els: "elements t = Ptr old_addr old_els" "length old_els = unat (capacity t)"
    and cap: "capacity t = 2 ^ j"
    and ct: "(ct = ADD \<and> j < 63)
           \<or> (ct = DELETE \<and> 4 < j \<and> j < 64 \<and> length (filter is_occupied old_els) \<le> 2 ^ (j - 1))"
    and keys: "list_all (\<lambda>e. \<not> is_occupied e \<or> valid_key (e_key e)) old_els"
    and al: "al = new_addr # al1" "0 \<notin> set al"
      "length (filter (\<lambda>e. is_occupied e \<and> k_type (e_key e) = HT_STR_KEY) old_els) \<le> length al1"
  shows "\<exists>new_els al2 evs new_capacity.
           resize_ht t ct al =
             (Returns (t\<lparr>capacity := new_capacity, elements := Ptr new_addr new_els\<rparr>, al2),
              Allocated new_addr # evs @ [Freed old_addr])
         \<and> new_capacity = (if ct = ADD then capacity t * 2 else capacity t div 2)
         \<and> length new_els = unat new_capacity
         \<and> rehash_in_slot_order old_els (replicate (unat new_capacity) zero_element)
             new_capacity al1 = Some new_els
         \<and> entries new_els = entries old_els
         \<and> chain_ok new_els new_capacity
         \<and> set evs \<subseteq> Allocated ` set al1"
proof -
  define i where "i = (if ct = ADD then Suc j else j - 1)"
  have i: "i < 64" using ct by (auto simp add: i_def)
  have ucap: "unat (capacity t) = 2 ^ j"
    using ct cap by (auto simp add: unat_pow2)
  have newcap: "(if ct = ADD then capacity t * 2 else capacity t div 2) = 2 ^ i"
    using ct cap pow2_double(1) pow2_halve(1) by (auto simp add: i_def)
  have guards: "\<not> (ct = ADD \<and> capacity t > SIZE_MAX div 2)"
    "\<not> (ct = DELETE \<and> capacity t \<le> HT_INITIAL_CAPACITY)"
    using ct cap pow2_double(2) pow2_halve(2) by auto
  have unew: "unat (2 ^ i :: size_t) = 2 ^ i"
    using i by (rule unat_pow2)
  have room: "length (filter is_occupied old_els) \<le> 2 ^ i"
  proof (cases "ct = ADD")
    case True
    have "length (filter is_occupied old_els) \<le> length old_els" by simp
    also have "\<dots> \<le> 2 ^ i" using True els(2) ucap by (simp add: i_def)
    finally show ?thesis .
  next
    case False
    then show ?thesis using ct by (simp add: i_def)
  qed
  have "\<exists>new' al' evs.
          rehash old_addr old_els (replicate (2 ^ i) zero_element) (2 ^ i) al1 = (Returns (new', al'), evs)
        \<and> length new' = 2 ^ i
        \<and> entries new' = entries (replicate (2 ^ i) zero_element) + entries old_els
        \<and> chain_ok new' (2 ^ i) \<and> set evs \<subseteq> Allocated ` set al1"
    using i
  proof (rule rehash_total)
    show "length (replicate (2 ^ i) zero_element) = 2 ^ i" by simp
    show "list_all (\<lambda>e. \<not> is_occupied e \<or> valid_key (e_key e)) old_els" using keys .
    show "length (filter is_occupied (replicate (2 ^ i) zero_element))
            + length (filter is_occupied old_els) \<le> 2 ^ i"
      using room by (simp add: count_replicate_zero)
    show "0 \<notin> set al1" using al(1,2) by simp
    show "length (filter (\<lambda>e. is_occupied e \<and> k_type (e_key e) = HT_STR_KEY) old_els) \<le> length al1"
      using al(3) .
    show "chain_ok (replicate (2 ^ i) zero_element) (2 ^ i)"
      by (rule chain_ok_replicate_zero)
  qed
  then obtain new' al' evs where
    res: "rehash old_addr old_els (replicate (2 ^ i) zero_element) (2 ^ i) al1 = (Returns (new', al'), evs)"
      "length new' = 2 ^ i" "entries new' = entries old_els"
      "chain_ok new' (2 ^ i)" "set evs \<subseteq> Allocated ` set al1"
    by (auto simp add: entries_replicate_zero)
  have order: "rehash_in_slot_order old_els (replicate (2 ^ i) zero_element) (2 ^ i) al1 = Some new'"
    using i _ res(1) by (rule rehash_refines) simp
  have addr: "new_addr \<noteq> 0" using al(1,2) by auto
  have kind: "ct = ADD \<or> ct = DELETE" using ct by auto
  have "resize_ht t ct al =
          (Returns (t\<lparr>capacity := 2 ^ i, elements := Ptr new_addr new'\<rparr>, al'),
           Allocated new_addr # evs @ [Freed old_addr])"
    using els guards kind newcap addr al(1) res(1) ucap unew
    by (simp add: resize_ht_def Let_def)
  then show ?thesis
    using res(2,3,4,5) order newcap unew by auto
qed


text \<open>The same on the table with the keys \<open>"abc"\<close> and 4, growing from 16 to 32.\<close>

lemma resize_ht_moves_every_entry_example:
  "elements (table16 two_keys 2) = Ptr 0x2000 two_keys
   \<and> length two_keys = unat (capacity (table16 two_keys 2))
   \<and> capacity (table16 two_keys 2) = 2 ^ 4
   \<and> list_all (\<lambda>e. \<not> is_occupied e \<or> valid_key (e_key e)) two_keys
   \<and> length (filter (\<lambda>e. is_occupied e \<and> k_type (e_key e) = HT_STR_KEY) two_keys) \<le> length [0x5000 :: size_t]
   \<and> (\<exists>new_els al2 evs new_capacity.
           resize_ht (table16 two_keys 2) ADD [0x3000, 0x5000] =
             (Returns ((table16 two_keys 2)\<lparr>capacity := new_capacity, elements := Ptr 0x3000 new_els\<rparr>, al2),
              Allocated 0x3000 # evs @ [Freed 0x2000])
         \<and> new_capacity = 32
         \<and> length new_els = 32
         \<and> rehash_in_slot_order two_keys (replicate 32 zero_element) 32 [0x5000] = Some new_els
         \<and> entries new_els = entries two_keys
         \<and> chain_ok new_els new_capacity
         \<and> set evs \<subseteq> Allocated ` set [0x5000])"
proof -
  have els: "elements (table16 two_keys 2) = Ptr 0x2000 two_keys"
    by (simp add: table16_def)
  have len: "length two_keys = unat (capacity (table16 two_keys 2))"
    by (simp add: table16_def two_keys_def)
  have cap: "capacity (table16 two_keys 2) = 2 ^ 4"
    by (simp add: table16_def)
  have ct: "(ADD = ADD \<and> (4::nat) < 63)
           \<or> (ADD = DELETE \<and> 4 < (4::nat) \<and> (4::nat) < 64 \<and> length (filter is_occupied two_keys) \<le> 2 ^ (4 - 1))"
    by simp
  have keys: "list_all (\<lambda>e. \<not> is_occupied e \<or> valid_key (e_key e)) two_keys"
    by (simp add: two_keys_def list_eval is_occupied_def valid_key_def zero_element_simps entry_simps)
  have strs: "length (filter (\<lambda>e. is_occupied e \<and> k_type (e_key e) = HT_STR_KEY) two_keys) \<le> length [0x5000 :: size_t]"
    by (simp add: two_keys_def list_eval is_occupied_def zero_element_simps entry_simps)
  have al: "[0x3000, 0x5000] = 0x3000 # [0x5000 :: size_t]" "0 \<notin> set [0x3000, 0x5000 :: size_t]"
    by simp_all
  from resize_ht_moves_every_entry [OF els len cap ct keys al strs] els len cap keys strs
  show ?thesis
    by (simp add: table16_def)
qed

text \<open>
  Claim C6 against the code.  The table below holds the string key \<open>"abc"\<close>, its
  characters at \<open>0x4000\<close>, and the \<open>int\<close> key 4.  \<open>resize_ht\<close> allocates the new array
  at \<open>0x3000\<close>, copies the string with \<open>strdup\<close> to \<open>0x5000\<close>, stores the copy in
  the new slot and frees the old array at \<open>0x2000\<close>.  The old copy at \<open>0x4000\<close> is not
  freed, and after the resize no slot of the table points to it: the claim says that the
  old duplicate is freed, and \<open>ht_delete\<close> and \<open>ht_clear\<close> free the string key of
  every slot they give up.
\<close>

theorem resize_ht_leaks_old_string_key:
  "two_keys ! 11 = str_entry 0x4000 [97, 98, 99] 0x4100 [1, 0, 0, 0]
   \<and> (case resize_ht (table16 two_keys 2) ADD [0x3000, 0x5000] of
         (Returns (t', al'), evs) \<Rightarrow>
           evs = [Allocated 0x3000, Allocated 0x5000, Freed 0x2000]
           \<and> Freed 0x4000 \<notin> set evs
           \<and> capacity t' = 32
           \<and> (case elements t' of
                 Ptr new_addr new_els \<Rightarrow>
                   new_addr = 0x3000
                   \<and> new_els ! 11 = str_entry 0x5000 [97, 98, 99] 0x4100 [1, 0, 0, 0]
                   \<and> list_all (\<lambda>e. k_data (e_key e) \<noteq> Str_stored (Ptr 0x4000 [97, 98, 99]))
                         new_els
               | NULL \<Rightarrow> False)
       | _ \<Rightarrow> False)"
  by (simp add: table16_def two_keys_def resize_eval str_entry_def int_entry_def)

subsection \<open>Failing allocations\<close>

lemma rehash_never_frees:
  "Freed a \<notin> set (snd (rehash p old new cap al))"
  by (induction old arbitrary: p new al)
    (auto simp add: with_events_def split: option.splits probe_result.splits pointer.splits prod.splits)

lemma rehash_exit:
  "fst (rehash p old new cap al) = Exits c \<Longrightarrow>
     c = 1 \<and> snd (rehash p old new cap al) \<noteq> []
     \<and> last (snd (rehash p old new cap al)) = Print Failed_to_duplicate_string_key_during_resize"
  by (induction old arbitrary: p new al)
    (auto simp add: with_events_def split: option.splits probe_result.splits pointer.splits prod.splits if_splits)

lemma rehash_exit_events:
  assumes "rehash p old new cap al = (Exits c, evs)"
  shows "c = 1" "evs \<noteq> []" "last evs = Print Failed_to_duplicate_string_key_during_resize"
    "Freed a \<notin> set evs"
  using rehash_exit [of p old new cap al c] rehash_never_frees [of a p old new cap al] assms
  by simp_all

lemma resize_ht_exit:
  assumes "fst (resize_ht t ct al) = Exits c"
  shows "c = 1"
    "last (snd (resize_ht t ct al)) = Print Failed_to_duplicate_string_key_during_resize"
    "Freed a \<notin> set (snd (resize_ht t ct al))"
  using assms
  by (auto simp add: resize_ht_def Let_def dest: rehash_exit_events
      split: pointer.splits prod.splits if_splits outcome.splits)

lemma rehash_failed_strdup:
  assumes j: "j < 64"
  shows "length new = 2 ^ j
     \<Longrightarrow> list_all (\<lambda>e. \<not> is_occupied e \<or> valid_key (e_key e)) old
     \<Longrightarrow> length (filter is_occupied new) + length (filter is_occupied old) \<le> 2 ^ j
     \<Longrightarrow> n = length (filter (\<lambda>e. is_occupied e \<and> k_type (e_key e) = HT_STR_KEY) old)
     \<Longrightarrow> 0 \<in> set (take n al) \<or> length al < n
     \<Longrightarrow> rehash p old new (2 ^ j) al
           = (Exits 1, map Allocated (takeWhile (\<lambda>a. a \<noteq> 0) al)
                        @ [Allocated 0, Print Failed_to_duplicate_string_key_during_resize])"
proof (induction old arbitrary: p new al n)
  case Nil
  then show ?case by simp
next
  case (Cons e old)
  show ?case
  proof (cases "is_occupied e")
    case False
    have "rehash (p + sizeof_ht_element) old new (2 ^ j) al
           = (Exits 1, map Allocated (takeWhile (\<lambda>a. a \<noteq> 0) al)
                        @ [Allocated 0, Print Failed_to_duplicate_string_key_during_resize])"
      using Cons.prems False by (intro Cons.IH [where n = n]) simp_all
    then show ?thesis
      using False by (simp add: is_occupied_def)
  next
    case True
    then have occ: "e_occupied e \<noteq> 0" by (simp add: is_occupied_def)
    have valid: "valid_key (e_key e)"
      using Cons.prems(2) True by simp
    from rehash_index_valid [OF valid j] obtain start where
      start: "rehash_index (p + 8) (e_key e) (2 ^ j) = Some start" "unat start < 2 ^ j"
      by blast
    have "length (filter is_occupied new) < length new"
      using Cons.prems(1,3) True by simp
    then have "\<exists>m < 2 ^ j. \<not> is_occupied (new ! m)"
      using free_slot_exists [of new] Cons.prems(1) by simp
    from probe_free_total [OF j Cons.prems(1) start(2) this] obtain r where
      r: "probe_free new (2 ^ j) start = Some (Free_slot r)" "unat r < 2 ^ j"
        "\<not> is_occupied (new ! unat r)"
      by blast
    have count: "length (filter is_occupied (new[unat r := x])) + length (filter is_occupied old) \<le> 2 ^ j"
      if "is_occupied x" for x
      using count_update [of "unat r" new x] r(2,3) that Cons.prems(1,3) True by simp
    show ?thesis
    proof (cases "k_type (e_key e) = HT_STR_KEY")
      case False
      let ?x = "\<lparr>e_key = e_key e, e_value = e_value e, e_occupied = 1\<rparr>"
      have "rehash (p + sizeof_ht_element) old (new[unat r := ?x]) (2 ^ j) al
           = (Exits 1, map Allocated (takeWhile (\<lambda>a. a \<noteq> 0) al)
                        @ [Allocated 0, Print Failed_to_duplicate_string_key_during_resize])"
      proof (rule Cons.IH [where n = n])
        show "length (new[unat r := ?x]) = 2 ^ j" using Cons.prems(1) by simp
        show "list_all (\<lambda>e. \<not> is_occupied e \<or> valid_key (e_key e)) old"
          using Cons.prems(2) by simp
        show "length (filter is_occupied (new[unat r := ?x])) + length (filter is_occupied old) \<le> 2 ^ j"
          by (rule count) (simp add: is_occupied_def)
        show "n = length (filter (\<lambda>e. is_occupied e \<and> k_type (e_key e) = HT_STR_KEY) old)"
          using Cons.prems(4) False by simp
        show "0 \<in> set (take n al) \<or> length al < n" using Cons.prems(5) .
      qed
      then show ?thesis
        using occ start(1) r(1) False by simp
    next
      case str: True
      from valid str obtain a s where data: "k_data (e_key e) = Str_stored (Ptr a s)"
        by (auto simp add: valid_key_def split: key_data.splits pointer.splits)
      obtain n' where n: "n = Suc n'"
        "n' = length (filter (\<lambda>e. is_occupied e \<and> k_type (e_key e) = HT_STR_KEY) old)"
        using Cons.prems(4) True str by simp
      show ?thesis
      proof (cases al)
        case Nil
        then show ?thesis
          using occ start(1) r(1) str data by simp
      next
        case (Cons c al1)
        show ?thesis
        proof (cases "c = 0")
          case True
          then show ?thesis
            using occ start(1) r(1) str data Cons by simp
        next
          case False
          let ?x = "\<lparr>e_key = \<lparr>k_type = HT_STR_KEY,
                            k_data = Str_stored (Ptr c (takeWhile (\<lambda>b. b \<noteq> 0) s))\<rparr>,
                     e_value = e_value e, e_occupied = 1\<rparr>"
          have "rehash (p + sizeof_ht_element) old (new[unat r := ?x]) (2 ^ j) al1
               = (Exits 1, map Allocated (takeWhile (\<lambda>a. a \<noteq> 0) al1)
                        @ [Allocated 0, Print Failed_to_duplicate_string_key_during_resize])"
          proof (rule Cons.IH [where n = n'])
            show "length (new[unat r := ?x]) = 2 ^ j" using Cons.prems(1) by simp
            show "list_all (\<lambda>e. \<not> is_occupied e \<or> valid_key (e_key e)) old"
              using Cons.prems(2) by simp
            show "length (filter is_occupied (new[unat r := ?x])) + length (filter is_occupied old) \<le> 2 ^ j"
              by (rule count) (simp add: is_occupied_def)
            show "n' = length (filter (\<lambda>e. is_occupied e \<and> k_type (e_key e) = HT_STR_KEY) old)"
              using n(2) .
            show "0 \<in> set (take n' al1) \<or> length al1 < n'"
              using Cons.prems(5) n(1) Cons False by auto
          qed
          then show ?thesis
            using occ start(1) r(1) str data Cons False by (simp add: with_events_def)
        qed
      qed
    qed
  qed
qed

lemma resize_ht_failed_strdup:
  assumes els: "elements t = Ptr old_addr old_els" "length old_els = unat (capacity t)"
    and cap: "capacity t = 2 ^ j"
    and ct: "(ct = ADD \<and> j < 63)
           \<or> (ct = DELETE \<and> 4 < j \<and> j < 64 \<and> length (filter is_occupied old_els) \<le> 2 ^ (j - 1))"
    and keys: "list_all (\<lambda>e. \<not> is_occupied e \<or> valid_key (e_key e)) old_els"
    and al: "al = new_addr # al1" "new_addr \<noteq> 0"
    and fails: "0 \<in> set (take (string_keys old_els) al1) \<or> length al1 < string_keys old_els"
  shows "resize_ht t ct al =
           (Exits 1, Allocated new_addr # map Allocated (takeWhile (\<lambda>a. a \<noteq> 0) al1)
                       @ [Allocated 0, Print Failed_to_duplicate_string_key_during_resize])"
proof -
  define i where "i = (if ct = ADD then Suc j else j - 1)"
  have i: "i < 64" using ct by (auto simp add: i_def)
  have ucap: "unat (capacity t) = 2 ^ j"
    using ct cap by (auto simp add: unat_pow2)
  have newcap: "(if ct = ADD then capacity t * 2 else capacity t div 2) = 2 ^ i"
    using ct cap pow2_double(1) pow2_halve(1) by (auto simp add: i_def)
  have guards: "\<not> (ct = ADD \<and> capacity t > SIZE_MAX div 2)"
    "\<not> (ct = DELETE \<and> capacity t \<le> HT_INITIAL_CAPACITY)"
    using ct cap pow2_double(2) pow2_halve(2) by auto
  have unew: "unat (2 ^ i :: size_t) = 2 ^ i"
    using i by (rule unat_pow2)
  have room: "length (filter is_occupied old_els) \<le> 2 ^ i"
  proof (cases "ct = ADD")
    case True
    have "length (filter is_occupied old_els) \<le> length old_els" by simp
    also have "\<dots> \<le> 2 ^ i" using True els(2) ucap by (simp add: i_def)
    finally show ?thesis .
  next
    case False
    then show ?thesis using ct by (simp add: i_def)
  qed
  have "rehash old_addr old_els (replicate (2 ^ i) zero_element) (2 ^ i) al1
          = (Exits 1, map Allocated (takeWhile (\<lambda>a. a \<noteq> 0) al1)
                        @ [Allocated 0, Print Failed_to_duplicate_string_key_during_resize])"
    using i
  proof (rule rehash_failed_strdup [where n = "string_keys old_els"])
    show "length (replicate (2 ^ i) zero_element) = 2 ^ i" by simp
    show "list_all (\<lambda>e. \<not> is_occupied e \<or> valid_key (e_key e)) old_els" using keys .
    show "length (filter is_occupied (replicate (2 ^ i) zero_element))
            + length (filter is_occupied old_els) \<le> 2 ^ i"
      using room by (simp add: count_replicate_zero)
    show "string_keys old_els
            = length (filter (\<lambda>e. is_occupied e \<and> k_type (e_key e) = HT_STR_KEY) old_els)"
      by (simp add: string_keys_def)
    show "0 \<in> set (take (string_keys old_els) al1) \<or> length al1 < string_keys old_els"
      using fails .
  qed
  moreover have kind: "ct = ADD \<or> ct = DELETE" using ct by auto
  ultimately show ?thesis
    using els guards newcap al ucap unew
    by (simp add: resize_ht_def Let_def)
qed

text \<open>
  Claim C7, amended.  When the allocation of the new array fails, \<open>resize_ht\<close> prints
  that it failed and returns; table and array are what they were and nothing is freed (the
  same holds when the resize is skipped for a null array or a capacity at its bound).  The
  failure is printed, not returned: \<open>resize_ht\<close> is \<open>void\<close>.  When the new array is
  allocated and the copy of a string key fails (the allocator fails one of the requests
  that the string keys of the table make, or has no answer left for it), \<open>resize_ht\<close>
  prints that a string key could not be duplicated and leaves the process with
  \<open>exit(1)\<close>; up to there it has allocated the new array and the copies before the
  failing one, and it has freed nothing, the old array included.  This is stated for a
  table whose capacity is a power of two (below \<open>2^63\<close> to grow; above 16, with the
  entries fitting into half of it, to shrink), whose array has that many elements and
  whose occupied slots hold valid keys.  For every table, \<open>resize_ht\<close> leaves the process
  in no other way.
\<close>

theorem resize_ht_failures:
  "(fst (allocate al) = 0 \<and> (ct = ADD \<or> ct = DELETE) \<longrightarrow>
      resize_ht t ct al =
        (if elements t = NULL then (Returns (t, al), [Print No_data_in_the_resized_table])
         else if ct = ADD \<and> capacity t > SIZE_MAX div 2 then
           (Returns (t, al), [Print Too_big_to_resize])
         else if ct = DELETE \<and> capacity t \<le> HT_INITIAL_CAPACITY then
           (Returns (t, al), [Print Too_small_to_resize])
         else (Returns (t, snd (allocate al)),
               [Allocated 0, Print Failed_to_allocate_resized_table])))
   \<and> (elements t = Ptr old_addr old_els \<and> length old_els = unat (capacity t)
        \<and> capacity t = 2 ^ j
        \<and> ((ct = ADD \<and> j < 63)
           \<or> (ct = DELETE \<and> 4 < j \<and> j < 64
               \<and> length (filter is_occupied old_els) \<le> 2 ^ (j - 1)))
        \<and> list_all (\<lambda>e. \<not> is_occupied e \<or> valid_key (e_key e)) old_els
        \<and> al = new_addr # al1 \<and> new_addr \<noteq> 0
        \<and> (0 \<in> set (take (string_keys old_els) al1) \<or> length al1 < string_keys old_els)
      \<longrightarrow>
      resize_ht t ct al =
        (Exits 1, Allocated new_addr # map Allocated (takeWhile (\<lambda>a. a \<noteq> 0) al1)
                    @ [Allocated 0, Print Failed_to_duplicate_string_key_during_resize]))
   \<and> (fst (resize_ht t ct al) = Exits c \<longrightarrow>
        c = 1
        \<and> last (snd (resize_ht t ct al)) = Print Failed_to_duplicate_string_key_during_resize
        \<and> (\<forall>a. Freed a \<notin> set (snd (resize_ht t ct al))))"
proof (intro conjI impI)
  assume "fst (allocate al) = 0 \<and> (ct = ADD \<or> ct = DELETE)"
  then show "resize_ht t ct al =
        (if elements t = NULL then (Returns (t, al), [Print No_data_in_the_resized_table])
         else if ct = ADD \<and> capacity t > SIZE_MAX div 2 then
           (Returns (t, al), [Print Too_big_to_resize])
         else if ct = DELETE \<and> capacity t \<le> HT_INITIAL_CAPACITY then
           (Returns (t, al), [Print Too_small_to_resize])
         else (Returns (t, snd (allocate al)),
               [Allocated 0, Print Failed_to_allocate_resized_table]))"
    by (auto simp add: resize_ht_def Let_def split: pointer.splits prod.splits)
next
  assume "elements t = Ptr old_addr old_els \<and> length old_els = unat (capacity t)
        \<and> capacity t = 2 ^ j
        \<and> ((ct = ADD \<and> j < 63)
           \<or> (ct = DELETE \<and> 4 < j \<and> j < 64
               \<and> length (filter is_occupied old_els) \<le> 2 ^ (j - 1)))
        \<and> list_all (\<lambda>e. \<not> is_occupied e \<or> valid_key (e_key e)) old_els
        \<and> al = new_addr # al1 \<and> new_addr \<noteq> 0
        \<and> (0 \<in> set (take (string_keys old_els) al1) \<or> length al1 < string_keys old_els)"
  then show "resize_ht t ct al =
        (Exits 1, Allocated new_addr # map Allocated (takeWhile (\<lambda>a. a \<noteq> 0) al1)
                    @ [Allocated 0, Print Failed_to_duplicate_string_key_during_resize])"
    by (intro resize_ht_failed_strdup [where j = j and old_addr = old_addr and old_els = old_els])
      simp_all
next
  assume ex: "fst (resize_ht t ct al) = Exits c"
  show "c = 1"
    using ex by (rule resize_ht_exit(1))
  show "last (snd (resize_ht t ct al)) = Print Failed_to_duplicate_string_key_during_resize"
    using ex by (rule resize_ht_exit(2))
  show "\<forall>a. Freed a \<notin> set (snd (resize_ht t ct al))"
    using resize_ht_exit(3) [OF ex] by simp
qed

theorem resize_ht_failures_witness:
  "fst (allocate []) = 0
   \<and> resize_ht (table16 two_keys 2) ADD []
       = (Returns (table16 two_keys 2, []), [Allocated 0, Print Failed_to_allocate_resized_table])
   \<and> elements (table16 two_keys 2) = Ptr 0x2000 two_keys
   \<and> length two_keys = unat (capacity (table16 two_keys 2))
   \<and> capacity (table16 two_keys 2) = 2 ^ 4
   \<and> list_all (\<lambda>e. \<not> is_occupied e \<or> valid_key (e_key e)) two_keys
   \<and> string_keys two_keys = 1
   \<and> resize_ht (table16 two_keys 2) ADD [0x3000, 0]
       = (Exits 1, [Allocated 0x3000, Allocated 0,
                    Print Failed_to_duplicate_string_key_during_resize])
   \<and> Freed 0x2000 \<notin> set (snd (resize_ht (table16 two_keys 2) ADD [0x3000, 0]))"
proof -
  have a: "fst (allocate []) = 0 \<and> (ADD = ADD \<or> ADD = DELETE)"
    by simp
  have els: "elements (table16 two_keys 2) = Ptr 0x2000 two_keys"
    by (simp add: table16_def)
  have len: "length two_keys = unat (capacity (table16 two_keys 2))"
    by (simp add: table16_def two_keys_def)
  have cap: "capacity (table16 two_keys 2) = 2 ^ 4"
    by (simp add: table16_def)
  have keys: "list_all (\<lambda>e. \<not> is_occupied e \<or> valid_key (e_key e)) two_keys"
    by (simp add: two_keys_def list_eval is_occupied_def valid_key_def zero_element_simps entry_simps)
  have strs: "string_keys two_keys = 1"
    by (simp add: string_keys_def two_keys_def list_eval is_occupied_def zero_element_simps entry_simps)
  have first: "resize_ht (table16 two_keys 2) ADD []
       = (Returns (table16 two_keys 2, []), [Allocated 0, Print Failed_to_allocate_resized_table])"
    using resize_ht_failures [of "[]" ADD "table16 two_keys 2"] a
    by (simp add: table16_def constants)
  have second: "resize_ht (table16 two_keys 2) ADD [0x3000, 0]
       = (Exits 1, [Allocated 0x3000, Allocated 0,
                    Print Failed_to_duplicate_string_key_during_resize])"
    using resize_ht_failures [of "[0x3000, 0]" ADD "table16 two_keys 2" "0x2000" two_keys 4
        "0x3000" "[0]"] els len cap keys strs
    by simp
  then have e: "fst (resize_ht (table16 two_keys 2) ADD [0x3000, 0]) = Exits 1"
    by simp
  have third: "Freed 0x2000 \<notin> set (snd (resize_ht (table16 two_keys 2) ADD [0x3000, 0]))"
    using resize_ht_failures [of "[0x3000, 0]" ADD "table16 two_keys 2" _ _ _ _ _ 1] e
    by blast
  from a first els len cap keys strs second third show ?thesis
    by simp
qed

text \<open>
  Claim C7, as the spec states it, fails where it says that the process is never left
  while the old array is still allocated: with the string key \<open>"abc"\<close> in the table and
  an allocator that serves the new array and then fails, \<open>resize_ht\<close> calls \<open>exit(1)\<close>;
  the old array at \<open>0x2000\<close> has not been freed.
\<close>

theorem resize_ht_exits_on_failed_strdup:
  "elements (table16 two_keys 2) = Ptr 0x2000 two_keys
   \<and> resize_ht (table16 two_keys 2) ADD [0x3000, 0]
       = (Exits 1, [Allocated 0x3000, Allocated 0,
                    Print Failed_to_duplicate_string_key_during_resize])"
  by (simp add: table16_def two_keys_def resize_eval)


section \<open>The trigger of the resize\<close>

text \<open>
  Claim C1 against the code.  \<open>ht_capacity_check\<close> resizes when the load factor with one
  more element is above the maximum or below the minimum, whatever the call type, and
  \<open>resize_ht\<close> called with \<open>ADD\<close> doubles.  For the table that \<open>ht_create\<close> returns
  (capacity 16, size 0) the load factor with one more element is 1/16: not above the
  maximum, yet the capacity is doubled to 32 on the first insertion.
\<close>

theorem first_insert_grows_new_table:
  "(case ht_create [0x1000, 0x2000] of
      (Ptr ta t, evs, al) \<Rightarrow>
        capacity t = 16 \<and> size_ht t = 0
        \<and> \<not> (real (unat (size_ht t)) + 1) / real (unat (capacity t)) > max_load_factor t
        \<and> (case ht_capacity_check t ADD [0x3000] of
              (Returns (b, t', al'), evs') \<Rightarrow>
                capacity t' = 32 \<and> evs' = [Allocated 0x3000, Freed 0x2000]
            | _ \<Rightarrow> False)
    | _ \<Rightarrow> False)"
  by (simp add: ht_create_def ht_capacity_check_def resize_eval)

section \<open>Classification of a slot\<close>

text \<open>
  Claim C3 against the code.  \<open>check_new_element_hash\<close> compares the \<open>int\<close> member of
  the stored key with an \<open>int\<close> probe key without looking at the stored type.  Slot 16 of
  the table below holds the string key \<open>"k"\<close>, whose characters are at \<open>0x1010\<close>; the
  \<open>int\<close> key \<open>4112 = 0x1010\<close> hashes to bucket 16 and is classified as the key that is
  already there.  \<open>ht_insert\<close> with that key then writes over the slot: the string key
  and its value are gone.
\<close>

theorem check_new_element_hash_matches_other_type:
  "k_type (e_key (mixed_keys ! 16)) = HT_STR_KEY
   \<and> fst (hash_the_key (Ptr 0x7000 (Int_stored 4112)) HT_INT_KEY) = Some 0x5B132B90
   \<and> (0x5B132B90 :: size_t) AND (32 - 1) = 16
   \<and> check_new_element_hash (table32 mixed_keys 8) 16 (Ptr 0x7000 (Int_stored 4112)) HT_INT_KEY
       = Returns OLD_PAIR_NEW_VALUE
   \<and> (case ht_insert (Ptr 0x1000 (table32 mixed_keys 8)) (Ptr 0x7000 (Int_stored 4112))
              HT_INT_KEY (Ptr 0x7100 [1]) HT_U_INT8_VAL 0 [] of
         (Returns (r, Ptr ta t', al'), evs) \<Rightarrow>
           (case elements t' of
              Ptr ea els \<Rightarrow>
                e_key (els ! 16) = \<lparr>k_type = HT_INT_KEY, k_data = Int_stored 4112\<rparr>
                \<and> v_data (e_value (els ! 16)) = Inline [1]
            | NULL \<Rightarrow> False)
       | _ \<Rightarrow> False)"
  by (simp add: mixed_keys_def table32_def insert_eval resize_eval)


section \<open>Order of resize and index computation\<close>

text \<open>
  Claim C4 against the code.  \<open>ht_insert\<close> calls the capacity check before it computes the
  index, but masks the digest with \<open>curr_ht.capacity\<close>, and \<open>curr_ht\<close> is the copy of the
  table taken before the check.  In a table of capacity 16 with 12 keys the next insertion
  requires growth.  The \<open>int\<close> key 16 has a digest whose bucket is 16 under the capacity 32
  the table has after the growth, and 0 under the capacity 16: \<open>ht_insert\<close> grows the table
  and then rejects the key for the index 0.
\<close>

theorem ht_insert_index_uses_old_capacity:
  "(real (unat (size_ht (table16 twelve_keys 12))) + 1)
      / real (unat (capacity (table16 twelve_keys 12))) > max_load_factor (table16 twelve_keys 12)
   \<and> fst (hash_the_key (Ptr 0x7000 (Int_stored 16)) HT_INT_KEY) = Some 0xE3779B90
   \<and> (0xE3779B90 :: size_t) AND (32 - 1) = 16
   \<and> (0xE3779B90 :: size_t) AND (16 - 1) = 0
   \<and> (case ht_insert (Ptr 0x1000 (table16 twelve_keys 12)) (Ptr 0x7000 (Int_stored 16)) HT_INT_KEY
              (Ptr 0x7100 [1]) HT_U_INT8_VAL 0 [0x3000] of
         (Returns (r, Ptr ta t', al'), evs) \<Rightarrow>
           r = Some False \<and> capacity t' = 32
           \<and> evs = [Allocated 0x3000, Freed 0x2000, Print Stream_read_as_format]
       | _ \<Rightarrow> False)"
  by (simp add: table16_def twelve_keys_def insert_eval resize_eval)

section \<open>Insertion of a key that is already there\<close>












section \<open>The concrete tables are reached by insertions\<close>

text \<open>
  The tables used above are what \<open>ht_add_pair\<close> makes of the table \<open>ht_create\<close>
  returns.  Twelve \<open>int\<close> keys give the table \<open>twelve_keys\<close> at capacity 16; the
  thirteenth key grows it to 32, and every one of the thirteen keys is then found by the
  probing loop.
\<close>

lemma five_keys_reached:
  "foldl add_int_key
     (Returns (fst (ht_create [0x1000, 0x2000]), [0x100, 0x200, 0x300, 0x400, 0x500]))
     [1, 2, 3, 4, 5]
   = Returns (Ptr 0x1000 (table16 five_keys 5), [])"
  by (simp add: add_int_key_def ht_create_def table16_def five_keys_def
      add_eval resize_eval int_entry_def Let_def)

lemma collided_keys_reached:
  "foldl add_int_key (Returns (fst (ht_create [0x1000, 0x2000]), [0x100, 0x110])) [1, 17]
   = Returns (Ptr 0x1000 (table16 collided_keys 2), [])"
  by (simp add: add_int_key_def ht_create_def table16_def collided_keys_def
      add_eval resize_eval int_entry_def Let_def)

lemma two_keys_reached:
  "(case ht_add_pair (fst (ht_create [0x1000, 0x2000])) HT_STR_KEY HT_U_INT32_VAL
           \<lparr>k_type = HT_STR_KEY, k_data = Str_stored (Ptr 0x7000 [97, 98, 99])\<rparr>
           \<lparr>a_ptr = Ptr 0x7100 [1, 0, 0, 0], a_size = 4\<rparr> [0x4000, 0x4100] of
      (Returns (table, al), evs) \<Rightarrow>
        fst (ht_add_pair table HT_INT_KEY HT_U_INT8_VAL
               \<lparr>k_type = HT_INT_KEY, k_data = Int_stored 4\<rparr>
               \<lparr>a_ptr = Ptr 0x7200 [4], a_size = 1\<rparr> [0x400])
    | (other, evs) \<Rightarrow> other)
   = Returns (Ptr 0x1000 (table16 two_keys 2), [])"
  by (simp add: ht_create_def table16_def two_keys_def add_eval resize_eval int_entry_def
      str_entry_def Let_def)

lemma twelve_keys_reached:
  "foldl add_int_key
     (Returns (fst (ht_create [0x1000, 0x2000]),
        [0x100, 0x200, 0x300, 0x400, 0x500, 0x600, 0x700, 0x800, 0x900, 0xA00, 0xB00, 0xC00]))
     [1, 2, 3, 4, 5, 6, 7, 8, 9, 10, 11, 12]
   = Returns (Ptr 0x1000 (table16 twelve_keys 12), [])"
  by (simp add: add_int_key_def ht_create_def table16_def twelve_keys_def
      add_eval resize_eval int_entry_def Let_def)

lemma thirteenth_key_grows:
  "(case add_int_key (Returns (Ptr 0x1000 (table16 twelve_keys 12), [0x3000, 0xD00])) 13 of
      Returns (Ptr ta t, al) \<Rightarrow>
        capacity t = 32 \<and> size_ht t = 13
        \<and> (case elements t of
              Ptr ea els \<Rightarrow>
                list_all (\<lambda>k. \<exists>i. add_probe els 32 \<lparr>k_type = HT_INT_KEY, k_data = Int_stored k\<rparr>
                            (hash_int k mod 32) = Some (Same_key i))
                  [1, 2, 3, 4, 5, 6, 7, 8, 9, 10, 11, 12, 13]
            | NULL \<Rightarrow> False)
    | _ \<Rightarrow> False)"
  by (simp add: add_int_key_def table16_def twelve_keys_def add_eval resize_eval int_entry_def Let_def)


end
